theory Spec2Isabelle
  imports
    Main
    "HOL-Library.Word"
    "HOL-Library.Sublist"
    "HOL-Library.Char_ord"
    "HOL-Library.List_Lexorder"
    "HOL-Library.AList"
    "HOL-Library.Multiset"
begin

unbundle bit_operations_syntax

section \<open>Errors\<close>

text \<open>
  Go errors are values. Three shapes occur in \<^verbatim>\<open>local.go\<close>: an error of the
  operating system (a \<^verbatim>\<open>*os.PathError\<close> around an errno), a fresh error made by
  \<^verbatim>\<open>errors.New\<close>, and an error wrapped with the name of the failing stage by
  \<^verbatim>\<open>errors.Wrap\<close>. \<^verbatim>\<open>errors.Cause\<close> strips the wrappers.
\<close>

datatype errno =
  ENOENT | EEXIST | ENOTDIR | EISDIR | EACCES | ENOTEMPTY | ENOSPC | EIO | ESPIPE | EBUSY

datatype error =
    PathError errno
  | New string
  | Wrap error string

fun Cause :: "error \<Rightarrow> error" where
  "Cause (Wrap e msg) = Cause e"
| "Cause (PathError e) = PathError e"
| "Cause (New msg) = New msg"

definition os_IsNotExist :: "error \<Rightarrow> bool" where
  "os_IsNotExist e \<longleftrightarrow> e = PathError ENOENT"

definition os_IsExist :: "error \<Rightarrow> bool" where
  "os_IsExist e \<longleftrightarrow> e = PathError EEXIST"

section \<open>The file system\<close>

text \<open>
  \<^verbatim>\<open>local.go\<close> reaches the disk only through the primitives of the packages
  \<^verbatim>\<open>fs\<close>, \<^verbatim>\<open>os\<close>, \<^verbatim>\<open>io\<close> and \<^verbatim>\<open>filepath\<close>, none of which is part of the
  file. They are modelled here from what the specification says about them: ``a
  filesystem abstraction providing open/create-exclusive/seek/sync/close/stat/chmod/
  remove/walk/mkdir-all primitives with POSIX-like semantics''.

  A path is the list of its components below the root of the file system, a file system
  is an association list from paths to nodes. A node has a kind, the permission bits of
  its mode and, for a regular file, its bytes. One process owns every node, so only the
  owner's permission bits count: \<open>0400\<close> to read, \<open>0200\<close> to write, \<open>0100\<close> to
  search a directory. Symbolic links are leaves that no primitive follows, and a umask
  of zero is assumed.
\<close>

type_synonym byte = "8 word"
type_synonym FileMode = "32 word"
type_synonym path = "string list"

datatype kind = Regular | Directory | Symlink | NamedPipe | Socket | BlockDevice | CharDevice

datatype node = Node (kind: kind) (perm: FileMode) (content: "byte list")

type_synonym filesystem = "(path \<times> node) list"

text \<open>The mode bits of Go's package \<^verbatim>\<open>os\<close>; \<open>ModeType\<close> as it was when the file
  was written, without the character-device bit that \<open>isFile\<close> adds by hand.\<close>

definition ModeDir :: FileMode where "ModeDir = 2147483648"
definition ModeSymlink :: FileMode where "ModeSymlink = 134217728"
definition ModeDevice :: FileMode where "ModeDevice = 67108864"
definition ModeNamedPipe :: FileMode where "ModeNamedPipe = 33554432"
definition ModeSocket :: FileMode where "ModeSocket = 16777216"
definition ModeCharDevice :: FileMode where "ModeCharDevice = 2097152"
definition ModePerm :: FileMode where "ModePerm = 511"

definition ModeType :: FileMode where
  "ModeType = ModeDir OR ModeSymlink OR ModeNamedPipe OR ModeSocket OR ModeDevice"

fun kind_bits :: "kind \<Rightarrow> FileMode" where
  "kind_bits Regular = 0"
| "kind_bits Directory = ModeDir"
| "kind_bits Symlink = ModeSymlink"
| "kind_bits NamedPipe = ModeNamedPipe"
| "kind_bits Socket = ModeSocket"
| "kind_bits BlockDevice = ModeDevice"
| "kind_bits CharDevice = ModeDevice OR ModeCharDevice"

text \<open>What \<^verbatim>\<open>os.FileInfo\<close> reports about a node.\<close>

definition fi_Mode :: "node \<Rightarrow> FileMode" where
  "fi_Mode n = kind_bits (kind n) OR (perm n AND ModePerm)"

definition fi_IsDir :: "node \<Rightarrow> bool" where
  "fi_IsDir n \<longleftrightarrow> fi_Mode n AND ModeDir \<noteq> 0"

definition fi_Size :: "node \<Rightarrow> int" where
  "fi_Size n = int (length (content n))"

definition may_read :: "node \<Rightarrow> bool" where
  "may_read n \<longleftrightarrow> perm n AND 256 \<noteq> 0"

definition may_write :: "node \<Rightarrow> bool" where
  "may_write n \<longleftrightarrow> perm n AND 128 \<noteq> 0"

definition may_search :: "node \<Rightarrow> bool" where
  "may_search n \<longleftrightarrow> perm n AND 64 \<noteq> 0"

subsection \<open>Path resolution\<close>

text \<open>Every proper ancestor of a path must be a directory that may be searched.\<close>

fun traverse :: "filesystem \<Rightarrow> path list \<Rightarrow> errno option" where
  "traverse fs [] = None"
| "traverse fs (q # qs) =
     (case map_of fs q of
        None \<Rightarrow> Some ENOENT
      | Some d \<Rightarrow>
          if kind d \<noteq> Directory then Some ENOTDIR
          else if \<not> may_search d then Some EACCES
          else traverse fs qs)"

definition ancestors :: "path \<Rightarrow> path list" where
  "ancestors p = butlast (prefixes p)"

definition resolve :: "filesystem \<Rightarrow> path \<Rightarrow> errno + node" where
  "resolve fs p =
     (case traverse fs (ancestors p) of
        Some e \<Rightarrow> Inl e
      | None \<Rightarrow> (case map_of fs p of None \<Rightarrow> Inl ENOENT | Some n \<Rightarrow> Inr n))"

subsection \<open>Primitives of package fs\<close>

text \<open>Modelled from the spec: \<^verbatim>\<open>fs.Stat\<close> and \<^verbatim>\<open>fs.Lstat\<close>, the ``stat''
  primitive. Both resolve the path and report the node found.\<close>

definition fs_Stat :: "filesystem \<Rightarrow> path \<Rightarrow> error + node" where
  "fs_Stat fs name =
     (case resolve fs name of Inl e \<Rightarrow> Inl (PathError e) | Inr n \<Rightarrow> Inr n)"

definition fs_Lstat :: "filesystem \<Rightarrow> path \<Rightarrow> error + node" where
  "fs_Lstat fs name =
     (case resolve fs name of Inl e \<Rightarrow> Inl (PathError e) | Inr n \<Rightarrow> Inr n)"

text \<open>An open file: its name, the node that was opened and the read position.\<close>

record OsFile =
  fname :: path
  fnode :: node
  pos :: nat

text \<open>Modelled from the spec: \<^verbatim>\<open>fs.Open\<close>, the ``open'' primitive, for reading
  only. The node must grant read permission.\<close>

definition fs_Open :: "filesystem \<Rightarrow> path \<Rightarrow> error + OsFile" where
  "fs_Open fs name =
     (case resolve fs name of
        Inl e \<Rightarrow> Inl (PathError e)
      | Inr n \<Rightarrow>
          if \<not> may_read n then Inl (PathError EACCES)
          else Inr \<lparr>fname = name, fnode = n, pos = 0\<rparr>)"

text \<open>Modelled from the spec: \<^verbatim>\<open>File.Stat\<close> and \<^verbatim>\<open>File.Close\<close> on a file
  opened for reading. Neither fails in this model.\<close>

definition File_Stat :: "OsFile \<Rightarrow> error + node" where
  "File_Stat f = Inr (fnode f)"

definition File_Close :: "OsFile \<Rightarrow> error option" where
  "File_Close f = None"

text \<open>Modelled from the spec: \<^verbatim>\<open>File.Seek(offset, 0)\<close>, the ``seek'' primitive
  from the start of the file. Pipes and sockets cannot seek; a position beyond the end
  of a file is allowed.\<close>

definition File_Seek :: "OsFile \<Rightarrow> nat \<Rightarrow> error + OsFile" where
  "File_Seek f off =
     (if kind (fnode f) = NamedPipe \<or> kind (fnode f) = Socket then Inl (PathError ESPIPE)
      else Inr (f\<lparr>pos := off\<rparr>))"

text \<open>An \<^verbatim>\<open>io.Reader\<close> is what it yields: some bytes, and then either the end of
  the stream or an error.\<close>

record reader =
  bytes :: "byte list"
  failure :: "error option"

text \<open>Reading an open file yields the bytes of a regular file from the read position
  on; reading a directory fails.\<close>

definition File_reader :: "OsFile \<Rightarrow> reader" where
  "File_reader f =
     (if kind (fnode f) = Directory then \<lparr>bytes = [], failure = Some (PathError EISDIR)\<rparr>
      else \<lparr>bytes = drop (pos f) (content (fnode f)), failure = None\<rparr>)"

text \<open>Modelled from the spec: \<^verbatim>\<open>backend.LimitReadCloser\<close>, ``a length-limiting
  reader'': ``reading past the declared length must not be possible (the stream
  self-limits)''. After \<open>n\<close> bytes the stream ends, whatever the underlying reader
  would do next.\<close>

definition LimitReadCloser :: "reader \<Rightarrow> nat \<Rightarrow> reader" where
  "LimitReadCloser r n =
     (if n \<le> length (bytes r) then \<lparr>bytes = take n (bytes r), failure = None\<rparr> else r)"

text \<open>
  What the outside world does to one call: how many bytes the disk accepts before a
  write fails, whether flushing or closing the written file fails, and whether the
  platform refuses to delete a file that is not writable (Windows does, POSIX does not).
\<close>

record env =
  write_limit :: "nat option"
  sync_failure :: "errno option"
  close_failure :: "errno option"
  readonly_undeletable :: bool

datatype open_flag = O_CREATE | O_EXCL | O_WRONLY

text \<open>Modelled from the spec: \<^verbatim>\<open>fs.OpenFile\<close>, the ``open'' and
  ``create-exclusive'' primitive. With \<open>O_CREATE\<close> and \<open>O_EXCL\<close> an existing
  name is an error; a new regular file is empty, carries the permission bits asked for
  and needs a writable parent directory.\<close>

definition fs_OpenFile ::
  "filesystem \<Rightarrow> path \<Rightarrow> open_flag list \<Rightarrow> FileMode \<Rightarrow> (error + OsFile) \<times> filesystem" where
  "fs_OpenFile fs name flags md =
     (case traverse fs (ancestors name) of
        Some e \<Rightarrow> (Inl (PathError e), fs)
      | None \<Rightarrow>
         (case map_of fs name of
            Some n \<Rightarrow>
              if O_CREATE \<in> set flags \<and> O_EXCL \<in> set flags then (Inl (PathError EEXIST), fs)
              else if O_WRONLY \<in> set flags \<and> kind n = Directory then (Inl (PathError EISDIR), fs)
              else if O_WRONLY \<in> set flags \<and> \<not> may_write n then (Inl (PathError EACCES), fs)
              else if O_WRONLY \<notin> set flags \<and> \<not> may_read n then (Inl (PathError EACCES), fs)
              else (Inr \<lparr>fname = name, fnode = n, pos = 0\<rparr>, fs)
          | None \<Rightarrow>
              if O_CREATE \<notin> set flags \<or> name = [] then (Inl (PathError ENOENT), fs)
              else
                (case map_of fs (butlast name) of
                   None \<Rightarrow> (Inl (PathError ENOENT), fs)
                 | Some d \<Rightarrow>
                     if \<not> may_write d then (Inl (PathError EACCES), fs)
                     else
                       (let n = Node Regular (md AND ModePerm) []
                        in (Inr \<lparr>fname = name, fnode = n, pos = 0\<rparr>,
                            AList.update name n fs)))))"

text \<open>Writing to an open file appends to the bytes stored under its name.\<close>

definition File_Write :: "filesystem \<Rightarrow> OsFile \<Rightarrow> byte list \<Rightarrow> filesystem" where
  "File_Write fs f bs =
     (case map_of fs (fname f) of
        None \<Rightarrow> fs
      | Some n \<Rightarrow> AList.update (fname f) (Node (kind n) (perm n) (content n @ bs)) fs)"

text \<open>Modelled from the spec: \<^verbatim>\<open>io.Copy\<close>, ``data is copied from the source''.
  Every byte the source yields is written, in order, until the disk refuses a write or
  the source ends; a failure of the source shows after its bytes have been written.\<close>

definition io_Copy :: "env \<Rightarrow> OsFile \<Rightarrow> reader \<Rightarrow> filesystem \<Rightarrow> error option \<times> filesystem" where
  "io_Copy ev f rd fs =
     (let n = (case write_limit ev of
                 None \<Rightarrow> length (bytes rd)
               | Some k \<Rightarrow> min k (length (bytes rd)));
          fs' = File_Write fs f (take n (bytes rd))
      in if n < length (bytes rd) then (Some (PathError ENOSPC), fs') else (failure rd, fs'))"

text \<open>Modelled from the spec: \<^verbatim>\<open>File.Sync\<close> and \<^verbatim>\<open>File.Close\<close> on a written
  file, the ``sync'' and ``close'' primitives. They change no bytes; whether they fail
  is up to the environment.\<close>

definition File_Sync :: "env \<Rightarrow> OsFile \<Rightarrow> error option" where
  "File_Sync ev f = map_option PathError (sync_failure ev)"

definition File_Close_written :: "env \<Rightarrow> OsFile \<Rightarrow> error option" where
  "File_Close_written ev f = map_option PathError (close_failure ev)"

text \<open>Modelled from the spec: \<^verbatim>\<open>fs.Chmod\<close>, the ``chmod'' primitive. The owner
  may always change the permission bits of a node that resolves.\<close>

definition fs_Chmod :: "filesystem \<Rightarrow> path \<Rightarrow> FileMode \<Rightarrow> error option \<times> filesystem" where
  "fs_Chmod fs name md =
     (case resolve fs name of
        Inl e \<Rightarrow> (Some (PathError e), fs)
      | Inr n \<Rightarrow> (None, AList.update name (Node (kind n) (md AND ModePerm) (content n)) fs))"

definition has_children :: "filesystem \<Rightarrow> path \<Rightarrow> bool" where
  "has_children fs p \<longleftrightarrow> (\<exists>q \<in> set (map fst fs). strict_prefix p q)"

text \<open>Modelled from the spec: \<^verbatim>\<open>fs.Remove\<close>, the ``remove'' primitive. It
  unlinks a file or removes an empty directory and needs a writable parent directory;
  where the platform protects read-only files the node itself must be writable too.\<close>

definition fs_Remove :: "env \<Rightarrow> filesystem \<Rightarrow> path \<Rightarrow> error option \<times> filesystem" where
  "fs_Remove ev fs name =
     (case resolve fs name of
        Inl e \<Rightarrow> (Some (PathError e), fs)
      | Inr n \<Rightarrow>
          if name = [] then (Some (PathError EBUSY), fs)
          else
            (case map_of fs (butlast name) of
               None \<Rightarrow> (Some (PathError ENOENT), fs)
             | Some d \<Rightarrow>
                 if \<not> may_write d then (Some (PathError EACCES), fs)
                 else if readonly_undeletable ev \<and> \<not> may_write n then (Some (PathError EACCES), fs)
                 else if kind n = Directory \<and> has_children fs name then
                   (Some (PathError ENOTEMPTY), fs)
                 else (None, AList.delete name fs)))"

text \<open>Modelled from the spec: \<^verbatim>\<open>os.Mkdir\<close>, one step of ``mkdir-all''.\<close>

definition fs_Mkdir :: "filesystem \<Rightarrow> path \<Rightarrow> FileMode \<Rightarrow> error option \<times> filesystem" where
  "fs_Mkdir fs name md =
     (case traverse fs (ancestors name) of
        Some e \<Rightarrow> (Some (PathError e), fs)
      | None \<Rightarrow>
         (case map_of fs name of
            Some n \<Rightarrow> (Some (PathError EEXIST), fs)
          | None \<Rightarrow>
              if name = [] then (Some (PathError ENOENT), fs)
              else
                (case map_of fs (butlast name) of
                   None \<Rightarrow> (Some (PathError ENOENT), fs)
                 | Some d \<Rightarrow>
                     if \<not> may_write d then (Some (PathError EACCES), fs)
                     else (None, AList.update name (Node Directory (md AND ModePerm) []) fs))))"

text \<open>Modelled from the spec: \<^verbatim>\<open>fs.MkdirAll\<close>, the ``mkdir-all'' primitive, as
  Go's package \<^verbatim>\<open>os\<close> does it: nothing to do when the path is a directory, an
  error when it is something else, otherwise the parent first and then the directory
  itself.\<close>

function fs_MkdirAll :: "filesystem \<Rightarrow> path \<Rightarrow> FileMode \<Rightarrow> error option \<times> filesystem" where
  "fs_MkdirAll fs p md =
     (case fs_Stat fs p of
        Inr dir \<Rightarrow> if fi_IsDir dir then (None, fs) else (Some (PathError ENOTDIR), fs)
      | Inl _ \<Rightarrow>
         (case (if p = [] then (None, fs) else fs_MkdirAll fs (butlast p) md) of
            (Some err, fs') \<Rightarrow> (Some err, fs')
          | (None, fs') \<Rightarrow>
             (case fs_Mkdir fs' p md of
                (None, fs'') \<Rightarrow> (None, fs'')
              | (Some err, fs'') \<Rightarrow>
                 (case fs_Lstat fs'' p of
                    Inr dir \<Rightarrow> if fi_IsDir dir then (None, fs'') else (Some err, fs'')
                  | Inl _ \<Rightarrow> (Some err, fs'')))))"
  by pat_completeness auto
termination
  by (relation "measure (\<lambda>(fs, p, md). length p)") auto

declare fs_MkdirAll.simps [simp del]

text \<open>Modelled from the spec: \<^verbatim>\<open>fs.HasPathPrefix\<close>, whether a path is the base
  or lies below it.\<close>

definition fs_HasPathPrefix :: "path \<Rightarrow> path \<Rightarrow> bool" where
  "fs_HasPathPrefix base p \<longleftrightarrow> prefix base p"

text \<open>Modelled from the spec: \<^verbatim>\<open>filepath.Base\<close>, the last component of a
  path.\<close>

definition Base :: "path \<Rightarrow> string" where
  "Base p = (if p = [] then ''/'' else last p)"

subsection \<open>Walking a tree\<close>

text \<open>
  Modelled from the spec: \<^verbatim>\<open>fs.Walk\<close>, the ``walk'' primitive, which is Go's
  \<^verbatim>\<open>filepath.Walk\<close>: it calls the function for the root and for every entry below
  it, in lexical order, hands it the errors it meets, and stops as soon as the function
  returns an error. When a directory cannot be read or an entry cannot be examined and
  the function returns no error, the walk goes on behind that entry.
\<close>

type_synonym 's WalkFunc = "path \<Rightarrow> node option \<Rightarrow> error option \<Rightarrow> 's \<Rightarrow> error option \<times> 's"

definition below :: "filesystem \<Rightarrow> path \<Rightarrow> path \<Rightarrow> bool" where
  "below fs root p \<longleftrightarrow>
     prefix root p \<and>
     (\<forall>q \<in> set (prefixes p). prefix root q \<and> q \<noteq> p \<longrightarrow>
        (case map_of fs q of None \<Rightarrow> False | Some d \<Rightarrow> kind d = Directory))"

definition walk_order :: "filesystem \<Rightarrow> path \<Rightarrow> path list" where
  "walk_order fs root = sort (remdups (filter (below fs root) (map fst fs)))"

definition readDirNames :: "filesystem \<Rightarrow> path \<Rightarrow> node \<Rightarrow> error option" where
  "readDirNames fs p d = (if may_read d then None else Some (PathError EACCES))"

fun walk_entries :: "filesystem \<Rightarrow> 's WalkFunc \<Rightarrow> path list \<Rightarrow> 's \<Rightarrow> error option \<times> 's" where
  "walk_entries fs walkFn [] s = (None, s)"
| "walk_entries fs walkFn (p # ps) s =
     (case fs_Lstat fs p of
        Inl err \<Rightarrow>
          (case walkFn p None (Some err) s of
             (Some err', s') \<Rightarrow> (Some err', s')
           | (None, s') \<Rightarrow> walk_entries fs walkFn (filter (\<lambda>q. \<not> prefix p q) ps) s')
      | Inr info \<Rightarrow>
          if \<not> fi_IsDir info then
            (case walkFn p (Some info) None s of
               (Some err', s') \<Rightarrow> (Some err', s')
             | (None, s') \<Rightarrow> walk_entries fs walkFn ps s')
          else
            (case readDirNames fs p info of
               Some err \<Rightarrow>
                 (case walkFn p (Some info) (Some err) s of
                    (Some err', s') \<Rightarrow> (Some err', s')
                  | (None, s') \<Rightarrow> walk_entries fs walkFn (filter (\<lambda>q. \<not> prefix p q) ps) s')
             | None \<Rightarrow>
                 (case walkFn p (Some info) None s of
                    (Some err', s') \<Rightarrow> (Some err', s')
                  | (None, s') \<Rightarrow> walk_entries fs walkFn ps s')))"

definition fs_Walk :: "filesystem \<Rightarrow> path \<Rightarrow> 's WalkFunc \<Rightarrow> 's \<Rightarrow> error option \<times> 's" where
  "fs_Walk fs root walkFn s =
     (case fs_Lstat fs root of
        Inl err \<Rightarrow> walkFn root None (Some err) s
      | Inr info \<Rightarrow> walk_entries fs walkFn (walk_order fs root) s)"

section \<open>Handles, layouts and modes\<close>

text \<open>
  The packages \<^verbatim>\<open>restic\<close> and \<^verbatim>\<open>backend\<close> give \<^verbatim>\<open>local.go\<close> the type of
  handles with its validity check, the layout interface and the two permission modes.
  A Go \<^verbatim>\<open>FileType\<close> is a string, so a handle can carry a type that is none of the
  known ones.
\<close>

datatype FileType =
  DataFile | KeyFile | LockFile | SnapshotFile | IndexFile | ConfigFile | UnknownFile string

record Handle =
  Type :: FileType
  Name :: string

text \<open>Modelled from the spec: \<^verbatim>\<open>Handle.Valid\<close>, which ``checks Type is a known
  enum value and Name emptiness matches the type's rule'': the name ``must be non-empty
  for all types except the singleton config type, for which Name must be empty''.\<close>

definition Valid :: "Handle \<Rightarrow> error option" where
  "Valid h =
     (case Type h of
        UnknownFile t \<Rightarrow> Some (New ''invalid Type'')
      | ConfigFile \<Rightarrow> if Name h = [] then None else Some (New ''invalid Name'')
      | _ \<Rightarrow> if Name h = [] then Some (New ''invalid Name'') else None)"

text \<open>The interface \<^verbatim>\<open>backend.Layout\<close>, embedded in \<^verbatim>\<open>Local\<close>: a value of
  the interface is a record of its four methods.\<close>

record Layout =
  Filename :: "Handle \<Rightarrow> path"
  Dirname :: "Handle \<Rightarrow> path"
  Basedir :: "FileType \<Rightarrow> path"
  Paths :: "path list"

text \<open>The variable \<^verbatim>\<open>backend.Modes\<close>: the mode of new directories and of new
  files. Its values are not part of \<^verbatim>\<open>local.go\<close>, so every operation that uses
  them takes them as a parameter.\<close>

record Modes =
  Dir :: FileMode
  File :: FileMode

text \<open>Modelled from the spec: the configuration of a backend, ``a root path and an
  optional layout-name string''.\<close>

record Config =
  Path :: path
  LayoutName :: string

record Local =
  Config :: Config
  Layout :: Layout

definition defaultLayout :: string where
  "defaultLayout = ''default''"

text \<open>The function \<^verbatim>\<open>backend.ParseLayout\<close> may look at the file system to find
  the layout in use; it is a parameter of \<open>Open\<close> and \<open>Create\<close>.\<close>

type_synonym ParseLayout = "filesystem \<Rightarrow> string \<Rightarrow> string \<Rightarrow> path \<Rightarrow> error + Layout"

text \<open>Modelled from the spec: \<^verbatim>\<open>setNewFileMode\<close>, defined beside
  \<^verbatim>\<open>local.go\<close> for each platform: ``the file's permission mode is hardened to the
  configured file mode''.\<close>

definition setNewFileMode :: "filesystem \<Rightarrow> path \<Rightarrow> FileMode \<Rightarrow> error option \<times> filesystem" where
  "setNewFileMode fs f md = fs_Chmod fs f md"

section \<open>The local backend\<close>

text \<open>The functions of \<^verbatim>\<open>local.go\<close>, in the order of the file. The file system
  is passed in and, where the function can change it, passed out again.\<close>

definition dirExists :: "filesystem \<Rightarrow> path \<Rightarrow> bool" where
  "dirExists fs name =
     (case fs_Open fs name of
        Inl err \<Rightarrow> False
      | Inr f \<Rightarrow>
          (case File_Stat f of
             Inl err \<Rightarrow> False
           | Inr fi \<Rightarrow>
               (case File_Close f of
                  Some err \<Rightarrow> False
                | None \<Rightarrow> fi_IsDir fi)))"

text \<open>The loop of \<open>Open\<close> over \<open>be.Paths()\<close>.\<close>

fun Open_paths :: "Modes \<Rightarrow> path \<Rightarrow> path list \<Rightarrow> filesystem \<Rightarrow> error option \<times> filesystem" where
  "Open_paths md datadir [] fs = (None, fs)"
| "Open_paths md datadir (d # ds) fs =
     (if \<not> fs_HasPathPrefix datadir d then Open_paths md datadir ds fs
      else
        (case fs_MkdirAll fs d (Dir md) of
           (Some err, fs') \<Rightarrow> (Some (Wrap err ''MkdirAll''), fs')
         | (None, fs') \<Rightarrow> Open_paths md datadir ds fs'))"

definition Open :: "ParseLayout \<Rightarrow> Modes \<Rightarrow> Config \<Rightarrow> filesystem \<Rightarrow> (error + Local) \<times> filesystem" where
  "Open parse md cfg fs =
     (case parse fs (LayoutName cfg) defaultLayout (Path cfg) of
        Inl err \<Rightarrow> (Inl err, fs)
      | Inr l \<Rightarrow>
          (let be = \<lparr>Config = cfg, Layout = l\<rparr>;
               datadir = Dirname (Layout be) \<lparr>Type = DataFile, Name = []\<rparr>
           in if dirExists fs datadir then
                (case Open_paths md datadir (Paths (Layout be)) fs of
                   (Some err, fs') \<Rightarrow> (Inl err, fs')
                 | (None, fs') \<Rightarrow> (Inr be, fs'))
              else (Inr be, fs)))"

text \<open>The loop of \<open>Create\<close> over \<open>be.Paths()\<close>.\<close>

fun Create_paths :: "Modes \<Rightarrow> path list \<Rightarrow> filesystem \<Rightarrow> error option \<times> filesystem" where
  "Create_paths md [] fs = (None, fs)"
| "Create_paths md (d # ds) fs =
     (case fs_MkdirAll fs d (Dir md) of
        (Some err, fs') \<Rightarrow> (Some (Wrap err ''MkdirAll''), fs')
      | (None, fs') \<Rightarrow> Create_paths md ds fs')"

definition Create :: "ParseLayout \<Rightarrow> Modes \<Rightarrow> Config \<Rightarrow> filesystem \<Rightarrow> (error + Local) \<times> filesystem" where
  "Create parse md cfg fs =
     (case parse fs (LayoutName cfg) defaultLayout (Path cfg) of
        Inl err \<Rightarrow> (Inl err, fs)
      | Inr l \<Rightarrow>
          (let be = \<lparr>Config = cfg, Layout = l\<rparr>
           in case fs_Lstat fs (Filename (Layout be) \<lparr>Type = ConfigFile, Name = []\<rparr>) of
                Inr fi \<Rightarrow> (Inl (New ''config file already exists''), fs)
              | Inl err \<Rightarrow>
                  (case Create_paths md (Paths (Layout be)) fs of
                     (Some err', fs') \<Rightarrow> (Inl err', fs')
                   | (None, fs') \<Rightarrow> (Inr be, fs'))))"

definition Location :: "Local \<Rightarrow> path" where
  "Location b = Path (Config b)"

definition IsNotExist :: "Local \<Rightarrow> error \<Rightarrow> bool" where
  "IsNotExist b err = os_IsNotExist (Cause err)"

text \<open>The first block of \<open>Save\<close>: the directory of a lock is made on demand.\<close>

definition Save_lockDir ::
  "Modes \<Rightarrow> Local \<Rightarrow> Handle \<Rightarrow> filesystem \<Rightarrow> error option \<times> filesystem" where
  "Save_lockDir md b h fs =
     (if Type h = LockFile then
        (let lockDir = Dirname (Layout b) h
         in if \<not> dirExists fs lockDir then
              (case fs_MkdirAll fs lockDir (Dir md) of
                 (Some err, fs') \<Rightarrow> (Some (Wrap err ''MkdirAll''), fs')
               | (None, fs') \<Rightarrow> (None, fs'))
            else (None, fs))
      else (None, fs))"

definition Save ::
  "Modes \<Rightarrow> env \<Rightarrow> Local \<Rightarrow> Handle \<Rightarrow> reader \<Rightarrow> filesystem \<Rightarrow> error option \<times> filesystem" where
  "Save md ev b h rd fs =
     (case Valid h of
        Some err \<Rightarrow> (Some err, fs)
      | None \<Rightarrow>
         (case Save_lockDir md b h fs of
            (Some err, fs1) \<Rightarrow> (Some err, fs1)
          | (None, fs1) \<Rightarrow>
             (let filename = Filename (Layout b) h
              in case fs_OpenFile fs1 filename [O_CREATE, O_EXCL, O_WRONLY] (File md) of
                   (Inl err, fs2) \<Rightarrow> (Some (Wrap err ''OpenFile''), fs2)
                 | (Inr f, fs2) \<Rightarrow>
                    (case io_Copy ev f rd fs2 of
                       (Some err, fs3) \<Rightarrow> (Some (Wrap err ''Write''), fs3)
                     | (None, fs3) \<Rightarrow>
                        (case File_Sync ev f of
                           Some err \<Rightarrow> (Some (Wrap err ''Sync''), fs3)
                         | None \<Rightarrow>
                            (case File_Close_written ev f of
                               Some err \<Rightarrow> (Some (Wrap err ''Close''), fs3)
                             | None \<Rightarrow> setNewFileMode fs3 filename (File md)))))))"

text \<open>\<open>length\<close> is a Go \<^verbatim>\<open>int\<close> (64 bits on the platforms considered) and
  \<open>offset\<close> an \<^verbatim>\<open>int64\<close>; both are read as signed. The stream returned is
  described by what reading it to the end yields.\<close>

definition Load :: "Local \<Rightarrow> Handle \<Rightarrow> 64 word \<Rightarrow> 64 word \<Rightarrow> filesystem \<Rightarrow> error + reader" where
  "Load b h len offset fs =
     (case Valid h of
        Some err \<Rightarrow> Inl err
      | None \<Rightarrow>
          if sint offset < 0 then Inl (New ''offset is negative'')
          else
            (case fs_Open fs (Filename (Layout b) h) of
               Inl err \<Rightarrow> Inl err
             | Inr f \<Rightarrow>
                 (case (if sint offset > 0 then File_Seek f (nat (sint offset)) else Inr f) of
                    Inl err \<Rightarrow> Inl err
                  | Inr f' \<Rightarrow>
                      if sint len > 0 then Inr (LimitReadCloser (File_reader f') (nat (sint len)))
                      else Inr (File_reader f'))))"

record FileInfo =
  Size :: int

definition Stat :: "Local \<Rightarrow> Handle \<Rightarrow> filesystem \<Rightarrow> error + FileInfo" where
  "Stat b h fs =
     (case Valid h of
        Some err \<Rightarrow> Inl err
      | None \<Rightarrow>
          (case fs_Stat fs (Filename (Layout b) h) of
             Inl err \<Rightarrow> Inl (Wrap err ''Stat'')
           | Inr fi \<Rightarrow> Inr \<lparr>Size = fi_Size fi\<rparr>))"

definition Test :: "Local \<Rightarrow> Handle \<Rightarrow> filesystem \<Rightarrow> error + bool" where
  "Test b h fs =
     (case fs_Stat fs (Filename (Layout b) h) of
        Inl err \<Rightarrow> if os_IsNotExist (Cause err) then Inr False else Inl (Wrap err ''Stat'')
      | Inr fi \<Rightarrow> Inr True)"

definition Remove :: "env \<Rightarrow> Local \<Rightarrow> Handle \<Rightarrow> filesystem \<Rightarrow> error option \<times> filesystem" where
  "Remove ev b h fs =
     (let fn = Filename (Layout b) h
      in case fs_Chmod fs fn 438 of
           (Some err, fs') \<Rightarrow> (Some (Wrap err ''Chmod''), fs')
         | (None, fs') \<Rightarrow> fs_Remove ev fs' fn)"

definition isFile :: "node \<Rightarrow> bool" where
  "isFile fi \<longleftrightarrow> fi_Mode fi AND (ModeType OR ModeCharDevice) = 0"

subsection \<open>List\<close>

text \<open>
  \<open>List\<close> starts a goroutine that walks the tree and sends each name on an
  unbuffered channel, in a \<^verbatim>\<open>select\<close> with the context's \<^verbatim>\<open>Done\<close> channel.
  What the goroutine does depends on its surroundings only through the outcome of each
  \<^verbatim>\<open>select\<close>, so the surroundings are a function from the number of a
  \<^verbatim>\<open>select\<close> to the situation in which it is resolved: whether the context has
  been cancelled, whether the consumer is receiving, and which case Go's runtime picks
  when both can proceed. A \<^verbatim>\<open>select\<close> none of whose cases can ever proceed parks
  the goroutine for good; the channel is then never closed.
\<close>

record select_env =
  cancelled :: bool
  receiving :: bool
  pick_send :: bool

datatype select_case = CaseSend | CaseDone

definition select_case_of :: "select_env \<Rightarrow> select_case option" where
  "select_case_of e =
     (if receiving e \<and> cancelled e then Some (if pick_send e then CaseSend else CaseDone)
      else if receiving e then Some CaseSend
      else if cancelled e then Some CaseDone
      else None)"

record producer =
  sent :: "string list"
  selects :: nat
  parked :: bool

text \<open>The function literal that \<open>List\<close> hands to \<^verbatim>\<open>fs.Walk\<close>. Each branch
  returns the variable \<open>err\<close>, as the source does. \<^verbatim>\<open>fs.Walk\<close> never passes a
  nil \<open>fi\<close> together with a nil \<open>err\<close>.\<close>

definition List_walkFn :: "(nat \<Rightarrow> select_env) \<Rightarrow> producer WalkFunc" where
  "List_walkFn ctx path fi err s =
     (if parked s then (None, s)
      else if err \<noteq> None then (err, s)
      else
        (case fi of
           None \<Rightarrow> (Some (New ''nil FileInfo''), s)
         | Some info \<Rightarrow>
             if \<not> isFile info then (err, s)
             else
               (case select_case_of (ctx (selects s)) of
                  None \<Rightarrow> (None, s\<lparr>parked := True\<rparr>)
                | Some CaseSend \<Rightarrow> (err, s\<lparr>sent := sent s @ [Base path], selects := Suc (selects s)\<rparr>)
                | Some CaseDone \<Rightarrow> (err, s\<lparr>selects := Suc (selects s)\<rparr>))))"

text \<open>The channel as the consumer sees it in the end: the names sent, in order, and
  whether the channel was closed.\<close>

record channel =
  names :: "string list"
  closed :: bool

definition List :: "(nat \<Rightarrow> select_env) \<Rightarrow> Local \<Rightarrow> FileType \<Rightarrow> filesystem \<Rightarrow> channel" where
  "List ctx b t fs =
     (case fs_Walk fs (Basedir (Layout b) t) (List_walkFn ctx)
             \<lparr>sent = [], selects = 0, parked = False\<rparr> of
        (err, s) \<Rightarrow> \<lparr>names = sent s, closed = \<not> parked s\<rparr>)"

definition Close :: "Local \<Rightarrow> error option" where
  "Close b = None"

section \<open>The default layout\<close>

text \<open>
  Modelled from the spec: the layout named ``default'', which is not part of
  \<^verbatim>\<open>local.go\<close>: ``a root directory containing one subdirectory per FileType, plus
  a single config object directly under the root. The default layout additionally shards
  large object types into two-hex-character subdirectories keyed by the first bytes of
  the object name''. The layout is given for any list of shard directories; the default
  one has all 256 of them.
\<close>

fun type_dir :: "FileType \<Rightarrow> path" where
  "type_dir DataFile = [''data'']"
| "type_dir SnapshotFile = [''snapshots'']"
| "type_dir IndexFile = [''index'']"
| "type_dir LockFile = [''locks'']"
| "type_dir KeyFile = [''keys'']"
| "type_dir ConfigFile = []"
| "type_dir (UnknownFile t) = []"

definition Join :: "path \<Rightarrow> string \<Rightarrow> path" where
  "Join p name = (if name = [] then p else p @ [name])"

definition sharded_Dirname :: "path \<Rightarrow> Handle \<Rightarrow> path" where
  "sharded_Dirname root h =
     (if Type h = DataFile \<and> length (Name h) > 2
      then root @ type_dir (Type h) @ [take 2 (Name h)]
      else root @ type_dir (Type h))"

definition sharded_Filename :: "path \<Rightarrow> Handle \<Rightarrow> path" where
  "sharded_Filename root h =
     (if Type h = ConfigFile then root @ [''config'']
      else Join (sharded_Dirname root h) (Name h))"

definition ShardedLayout :: "string list \<Rightarrow> path \<Rightarrow> Layout" where
  "ShardedLayout shards root =
     \<lparr>Filename = sharded_Filename root,
      Dirname = sharded_Dirname root,
      Basedir = (\<lambda>t. root @ type_dir t),
      Paths = map (\<lambda>t. root @ type_dir t) [DataFile, SnapshotFile, IndexFile, LockFile, KeyFile]
              @ map (\<lambda>s. root @ [''data'', s]) shards\<rparr>"

definition hexdigits :: string where
  "hexdigits = ''0123456789abcdef''"

definition DefaultLayout :: "path \<Rightarrow> Layout" where
  "DefaultLayout root =
     ShardedLayout (concat (map (\<lambda>a. map (\<lambda>b. [a, b]) hexdigits) hexdigits)) root"

section \<open>Notions used in the statements\<close>

text \<open>A file system extends another when it keeps every entry; it has grown towards
  a path when, besides, every new entry is a directory of the given mode on the way to
  that path.\<close>

definition extends :: "filesystem \<Rightarrow> filesystem \<Rightarrow> bool" where
  "extends fs fs' \<longleftrightarrow> (\<forall>q \<in> set (map fst fs). map_of fs' q = map_of fs q)"

definition grown :: "FileMode \<Rightarrow> path \<Rightarrow> filesystem \<Rightarrow> filesystem \<Rightarrow> bool" where
  "grown md p fs fs' \<longleftrightarrow>
     extends fs fs' \<and>
     (\<forall>q \<in> set (map fst fs'). map_of fs q = None \<longrightarrow>
        prefix q p \<and> map_of fs' q = Some (Node Directory (md AND ModePerm) []))"

text \<open>What a call of \<open>Save\<close> that got past opening the file has done to the file
  system it found after the lock directory was seen to: under a name that was free, in a
  writable directory, there is now a regular file with the first \<open>k\<close> bytes of the
  data.\<close>

definition written :: "Modes \<Rightarrow> path \<Rightarrow> reader \<Rightarrow> nat \<Rightarrow> filesystem \<Rightarrow> filesystem \<Rightarrow> bool" where
  "written md fn rd k fs1 fs' \<longleftrightarrow>
     traverse fs1 (ancestors fn) = None \<and> map_of fs1 fn = None \<and> fn \<noteq> [] \<and>
     (case map_of fs1 (butlast fn) of None \<Rightarrow> False | Some d \<Rightarrow> may_write d) \<and>
     k \<le> length (bytes rd) \<and>
     map_of fs' = (map_of fs1)(fn \<mapsto> Node Regular (File md AND ModePerm) (take k (bytes rd)))"




section \<open>Example values\<close>

text \<open>
  A small world to run the functions in: modes \<open>0700\<close> and \<open>0400\<close>, a layout
  with two shard directories at \<^verbatim>\<open>/repo\<close>, an environment in which nothing fails,
  a file system with an empty \<^verbatim>\<open>/repo\<close>, and the one that \<open>Create\<close> makes of
  it.
\<close>

definition modes0 :: Modes where
  "modes0 = \<lparr>Dir = 448, File = 256\<rparr>"

definition cfg0 :: Config where
  "cfg0 = \<lparr>Path = [''repo''], LayoutName = []\<rparr>"

text \<open>Modelled from the spec: a \<^verbatim>\<open>ParseLayout\<close> that knows the default layout
  only, ``defaulting to default when unspecified or empty''; an ``unrecognized layout
  name at selection time is a fatal configuration error''.\<close>

definition ParseLayout_sharded :: "string list \<Rightarrow> ParseLayout" where
  "ParseLayout_sharded shards fs name dflt root =
     (if name = ''default'' \<or> (name = [] \<and> dflt = ''default'') then Inr (ShardedLayout shards root)
      else Inl (New ''unknown backend layout''))"

definition parse0 :: ParseLayout where
  "parse0 = ParseLayout_sharded [''aa'', ''bb'']"

definition backend0 :: Local where
  "backend0 = \<lparr>Config = cfg0, Layout = ShardedLayout [''aa'', ''bb''] [''repo'']\<rparr>"

definition calm :: env where
  "calm = \<lparr>write_limit = None, sync_failure = None, close_failure = None,
            readonly_undeletable = False\<rparr>"

definition fs_bare :: filesystem where
  "fs_bare = [([], Node Directory 493 []), ([''repo''], Node Directory 448 [])]"

definition fs_repo :: filesystem where
  "fs_repo =
     [([], Node Directory 493 []),
      ([''repo''], Node Directory 448 []),
      ([''repo'', ''data''], Node Directory 448 []),
      ([''repo'', ''snapshots''], Node Directory 448 []),
      ([''repo'', ''index''], Node Directory 448 []),
      ([''repo'', ''locks''], Node Directory 448 []),
      ([''repo'', ''keys''], Node Directory 448 []),
      ([''repo'', ''data'', ''aa''], Node Directory 448 []),
      ([''repo'', ''data'', ''bb''], Node Directory 448 [])]"

definition draining :: "nat \<Rightarrow> select_env" where
  "draining i = \<lparr>cancelled = False, receiving = True, pick_send = True\<rparr>"

definition fs_with_config :: filesystem where
  "fs_with_config = fs_repo @ [([''repo'', ''config''], Node Regular 256 [1, 2, 3])]"

text \<open>A root in which only the data directory has been made, and what \<open>Open\<close>
  makes of it.\<close>

definition fs_datadir :: filesystem where
  "fs_datadir =
     [([], Node Directory 493 []),
      ([''repo''], Node Directory 448 []),
      ([''repo'', ''data''], Node Directory 448 [])]"

definition fs_sharded :: filesystem where
  "fs_sharded =
     fs_datadir @
     [([''repo'', ''data'', ''aa''], Node Directory 448 []),
      ([''repo'', ''data'', ''bb''], Node Directory 448 [])]"

text \<open>A data object, the three bytes stored in it, the repository after it has been
  saved, and a disk that takes one byte and no more with what it leaves behind.\<close>

definition h0 :: Handle where
  "h0 = \<lparr>Type = DataFile, Name = ''aabbcc''\<rparr>"

definition rd0 :: reader where
  "rd0 = \<lparr>bytes = [1, 2, 3], failure = None\<rparr>"

definition fs_saved :: filesystem where
  "fs_saved = fs_repo @ [([''repo'', ''data'', ''aa'', ''aabbcc''], Node Regular 256 [1, 2, 3])]"

definition full_disk :: env where
  "full_disk = \<lparr>write_limit = Some 1, sync_failure = None, close_failure = None,
                 readonly_undeletable = False\<rparr>"

definition fs_partial :: filesystem where
  "fs_partial = fs_repo @ [([''repo'', ''data'', ''aa'', ''aabbcc''], Node Regular 256 [1])]"

text \<open>A platform that refuses to delete a file that is not writable.\<close>

definition strict :: env where
  "strict = \<lparr>write_limit = None, sync_failure = None, close_failure = None,
              readonly_undeletable = True\<rparr>"


text \<open>A repository with an object of twenty bytes, the numbers from 0 to 19.\<close>

definition fs_twenty :: filesystem where
  "fs_twenty =
     fs_repo @
     [([''repo'', ''data'', ''aa'', ''aabbcc''],
       Node Regular 256 [0, 1, 2, 3, 4, 5, 6, 7, 8, 9, 10, 11, 12, 13, 14, 15, 16, 17, 18, 19])]"

text \<open>A repository with three snapshots \<open>a\<close>, \<open>b\<close> and \<open>c\<close>, a directory and a
  character device beside them, and a data object.\<close>

definition fs_listing :: filesystem where
  "fs_listing =
     fs_repo @
     [([''repo'', ''snapshots'', ''b''], Node Regular 256 [2]),
      ([''repo'', ''snapshots'', ''tmp''], Node Directory 448 []),
      ([''repo'', ''snapshots'', ''a''], Node Regular 256 [1]),
      ([''repo'', ''snapshots'', ''tty''], Node CharDevice 384 []),
      ([''repo'', ''snapshots'', ''c''], Node Regular 256 [3]),
      ([''repo'', ''data'', ''aa'', ''aabbcc''], Node Regular 256 [1, 2, 3])]"

text \<open>A consumer that takes the first name and is busy when the context is cancelled:
  at the second \<^verbatim>\<open>select\<close> only the \<^verbatim>\<open>Done\<close> channel can proceed; at the third
  the consumer receives again, both cases can proceed and the runtime picks the send.\<close>

definition cancelled_after_first :: "nat \<Rightarrow> select_env" where
  "cancelled_after_first i =
     (if i = 0 then \<lparr>cancelled = False, receiving = True, pick_send = True\<rparr>
      else if i = 1 then \<lparr>cancelled = True, receiving = False, pick_send = False\<rparr>
      else \<lparr>cancelled = True, receiving = True, pick_send = True\<rparr>)"

text \<open>A handle of a data object without a name, which \<open>Valid\<close> rejects.\<close>

definition h_unnamed :: Handle where
  "h_unnamed = \<lparr>Type = DataFile, Name = []\<rparr>"

text \<open>Handles of three snapshots.\<close>

definition snap :: "string \<Rightarrow> Handle" where
  "snap name = \<lparr>Type = SnapshotFile, Name = name\<rparr>"

section \<open>Facts about the file system\<close>

lemma fi_IsDir_iff: "fi_IsDir n \<longleftrightarrow> kind n = Directory"
  by (cases "kind n")
    (simp_all add: fi_IsDir_def fi_Mode_def ModeDir_def ModeSymlink_def ModeDevice_def
      ModeNamedPipe_def ModeSocket_def ModeCharDevice_def ModePerm_def word_ao_dist
      word_bw_assocs)

lemma isFile_iff: "isFile n \<longleftrightarrow> kind n = Regular"
  by (cases "kind n")
    (simp_all add: isFile_def fi_Mode_def ModeType_def ModeDir_def ModeSymlink_def ModeDevice_def
      ModeNamedPipe_def ModeSocket_def ModeCharDevice_def ModePerm_def word_ao_dist
      word_bw_assocs)

lemma ancestors_Nil [simp]: "ancestors [] = []"
  by (simp add: ancestors_def)

lemma ancestors_snoc [simp]: "ancestors (xs @ [x]) = prefixes xs"
  by (simp add: ancestors_def)

lemma set_ancestors: "set (ancestors p) = {q. strict_prefix q p}"
  by (cases p rule: rev_cases) (auto simp: strict_prefix_def)

lemma ancestors_butlast: "p \<noteq> [] \<Longrightarrow> ancestors p = prefixes (butlast p)"
  by (cases p rule: rev_cases) auto

lemma map_of_update: "map_of (AList.update k v fs) = (map_of fs)(k \<mapsto> v)"
  by (rule update_conv')

lemma traverse_cong:
  "(\<And>q. q \<in> set qs \<Longrightarrow> map_of fs' q = map_of fs q) \<Longrightarrow> traverse fs' qs = traverse fs qs"
  by (induction qs) (auto split: option.splits)

lemma traverse_None_iff:
  "traverse fs qs = None \<longleftrightarrow>
     (\<forall>q \<in> set qs. \<exists>d. map_of fs q = Some d \<and> kind d = Directory \<and> may_search d)"
  by (induction qs) (auto split: option.splits)

lemma extends_iff:
  "extends fs fs' \<longleftrightarrow> (\<forall>q n. map_of fs q = Some n \<longrightarrow> map_of fs' q = Some n)"
proof
  assume e: "extends fs fs'"
  show "\<forall>q n. map_of fs q = Some n \<longrightarrow> map_of fs' q = Some n"
  proof (intro allI impI)
    fix q n assume "map_of fs q = Some n"
    moreover from this have "q \<in> set (map fst fs)"
      by (metis map_of_eq_None_iff option.distinct(1) set_map)
    ultimately show "map_of fs' q = Some n" using e unfolding extends_def by fastforce
  qed
next
  assume r: "\<forall>q n. map_of fs q = Some n \<longrightarrow> map_of fs' q = Some n"
  show "extends fs fs'"
    unfolding extends_def
  proof
    fix q assume "q \<in> set (map fst fs)"
    then obtain n where "map_of fs q = Some n"
      by (metis map_of_eq_None_iff not_Some_eq set_map)
    with r show "map_of fs' q = map_of fs q" by simp
  qed
qed

lemma grown_iff:
  "grown md p fs fs' \<longleftrightarrow>
     extends fs fs' \<and>
     (\<forall>q n. map_of fs q = None \<longrightarrow> map_of fs' q = Some n \<longrightarrow>
        prefix q p \<and> n = Node Directory (md AND ModePerm) [])"
proof -
  have "(\<forall>q \<in> set (map fst fs'). map_of fs q = None \<longrightarrow>
           prefix q p \<and> map_of fs' q = Some (Node Directory (md AND ModePerm) [])) \<longleftrightarrow>
        (\<forall>q n. map_of fs q = None \<longrightarrow> map_of fs' q = Some n \<longrightarrow>
           prefix q p \<and> n = Node Directory (md AND ModePerm) [])"
    (is "?L \<longleftrightarrow> ?R")
  proof
    assume l: ?L
    show ?R
    proof (intro allI impI)
      fix q n assume a: "map_of fs q = None" "map_of fs' q = Some n"
      then have "q \<in> set (map fst fs')"
        by (metis map_of_eq_None_iff option.distinct(1) set_map)
      with l a show "prefix q p \<and> n = Node Directory (md AND ModePerm) []" by auto
    qed
  next
    assume r: ?R
    show ?L
    proof (intro ballI impI)
      fix q assume a: "q \<in> set (map fst fs')" "map_of fs q = None"
      then obtain n where "map_of fs' q = Some n"
        by (metis map_of_eq_None_iff not_Some_eq set_map)
      with r a show "prefix q p \<and> map_of fs' q = Some (Node Directory (md AND ModePerm) [])"
        by auto
    qed
  qed
  then show ?thesis by (simp add: grown_def)
qed

lemma extends_refl [simp]: "extends fs fs"
  by (simp add: extends_iff)

lemma extends_trans: "extends fs fs1 \<Longrightarrow> extends fs1 fs2 \<Longrightarrow> extends fs fs2"
  by (simp add: extends_iff)

lemma grown_refl [simp]: "grown md p fs fs"
  by (simp add: grown_iff)

lemma resolve_Inr_iff:
  "resolve fs p = Inr n \<longleftrightarrow> traverse fs (ancestors p) = None \<and> map_of fs p = Some n"
  by (auto simp: resolve_def split: option.splits)

lemma traverse_extends:
  "extends fs fs' \<Longrightarrow> traverse fs qs = None \<Longrightarrow> traverse fs' qs = None"
  unfolding traverse_None_iff extends_iff by blast

lemma resolve_extends:
  "extends fs fs' \<Longrightarrow> resolve fs p = Inr n \<Longrightarrow> resolve fs' p = Inr n"
  unfolding resolve_Inr_iff by (auto simp: extends_iff dest: traverse_extends[unfolded extends_iff])

lemma fs_Stat_Inr_iff: "fs_Stat fs p = Inr n \<longleftrightarrow> resolve fs p = Inr n"
  by (auto simp: fs_Stat_def split: sum.splits)

lemma fs_Lstat_eq_Stat: "fs_Lstat fs p = fs_Stat fs p"
  by (simp add: fs_Lstat_def fs_Stat_def)

lemma fs_Mkdir_None:
  "fs_Mkdir fs p md = (None, fs') \<Longrightarrow>
     p \<noteq> [] \<and> map_of fs p = None \<and> traverse fs (ancestors p) = None \<and>
     fs' = AList.update p (Node Directory (md AND ModePerm) []) fs"
  by (auto simp: fs_Mkdir_def split: option.splits if_splits)

lemma fs_Mkdir_Some: "fs_Mkdir fs p md = (Some e, fs') \<Longrightarrow> fs' = fs"
  by (auto simp: fs_Mkdir_def split: option.splits if_splits)

lemma fs_Mkdir_grown: "fs_Mkdir fs p md = (r, fs') \<Longrightarrow> grown md p fs fs'"
  by (cases r)
    (auto dest!: fs_Mkdir_None fs_Mkdir_Some simp: grown_iff extends_iff map_of_update
      split: if_splits)

lemma grown_trans:
  "grown md q fs fs1 \<Longrightarrow> grown md p fs1 fs2 \<Longrightarrow> prefix q p \<Longrightarrow> grown md p fs fs2"
  unfolding grown_iff extends_iff
  by (metis not_Some_eq prefix_order.order_trans)

text \<open>\<open>fs.MkdirAll\<close> only adds directories on the way to its path, and when it
  succeeds the path is a directory.\<close>

lemma fs_MkdirAll_grown: "fs_MkdirAll fs p md = (r, fs') \<Longrightarrow> grown md p fs fs'"
proof (induction fs p md arbitrary: r fs' rule: fs_MkdirAll.induct)
  case (1 fs p md)
  show ?case
  proof (cases "fs_Stat fs p")
    case (Inr dir)
    with "1.prems" have "fs' = fs"
      by (simp add: fs_MkdirAll.simps[of fs p] split: if_splits)
    then show ?thesis by simp
  next
    case (Inl e)
    obtain r1 fs1 where up: "(if p = [] then (None, fs) else fs_MkdirAll fs (butlast p) md) = (r1, fs1)"
      by (cases "(if p = [] then (None, fs) else fs_MkdirAll fs (butlast p) md)") auto
    have g1: "grown md (butlast p) fs fs1"
    proof (cases "p = []")
      case True with up show ?thesis by simp
    next
      case False
      with up have "fs_MkdirAll fs (butlast p) md = (r1, fs1)" by simp
      from "1.IH"[OF Inl False this] show ?thesis .
    qed
    have pre: "prefix (butlast p) p" by (simp add: prefixeq_butlast)
    show ?thesis
    proof (cases r1)
      case (Some err)
      with "1.prems" Inl up have "fs' = fs1"
        by (simp add: fs_MkdirAll.simps[of fs p])
      with g1 pre show ?thesis by (metis grown_refl grown_trans)
    next
      case None
      obtain r2 fs2 where mk: "fs_Mkdir fs1 p md = (r2, fs2)" by (cases "fs_Mkdir fs1 p md") auto
      with "1.prems" Inl up None have "fs' = fs2"
        by (auto simp: fs_MkdirAll.simps[of fs p] split: option.splits sum.splits if_splits)
      with fs_Mkdir_grown[OF mk] g1 pre show ?thesis by (metis grown_trans)
    qed
  qed
qed

lemma fs_MkdirAll_is_dir:
  "fs_MkdirAll fs p md = (None, fs') \<Longrightarrow> \<exists>n. resolve fs' p = Inr n \<and> kind n = Directory"
proof (induction fs p md arbitrary: fs' rule: fs_MkdirAll.induct)
  case (1 fs p md)
  show ?case
  proof (cases "fs_Stat fs p")
    case (Inr dir)
    with "1.prems" show ?thesis
      by (auto simp: fs_MkdirAll.simps[of fs p] fi_IsDir_iff fs_Stat_Inr_iff split: if_splits)
  next
    case (Inl e)
    obtain r1 fs1 where up: "(if p = [] then (None, fs) else fs_MkdirAll fs (butlast p) md) = (r1, fs1)"
      by (cases "(if p = [] then (None, fs) else fs_MkdirAll fs (butlast p) md)") auto
    from "1.prems" Inl up have r1: "r1 = None"
      by (cases r1) (auto simp: fs_MkdirAll.simps[of fs p])
    obtain r2 fs2 where mk: "fs_Mkdir fs1 p md = (r2, fs2)" by (cases "fs_Mkdir fs1 p md") auto
    show ?thesis
    proof (cases r2)
      case None
      with "1.prems" Inl up r1 mk have "fs' = fs2"
        by (simp add: fs_MkdirAll.simps[of fs p])
      moreover from mk None have "resolve fs2 p = Inr (Node Directory (md AND ModePerm) [])"
        by (auto dest!: fs_Mkdir_None simp: resolve_Inr_iff map_of_update set_ancestors
            intro!: traverse_extends[of fs1] simp: extends_iff)
      ultimately show ?thesis by simp
    next
      case (Some err)
      with "1.prems" Inl up r1 mk show ?thesis
        by (auto simp: fs_MkdirAll.simps[of fs p] fs_Lstat_eq_Stat fs_Stat_Inr_iff fi_IsDir_iff
            dest!: fs_Mkdir_Some split: sum.splits if_splits)
    qed
  qed
qed


section \<open>Running the model\<close>

text \<open>The equations that evaluate the primitives, the layouts and the backend on
  concrete values.\<close>

lemmas fs_defs = resolve_def fs_Stat_def fs_Lstat_def fs_Open_def File_Stat_def File_Close_def
  File_Seek_def File_reader_def LimitReadCloser_def fs_OpenFile_def File_Write_def io_Copy_def
  File_Sync_def File_Close_written_def fs_Chmod_def has_children_def fs_Remove_def fs_Mkdir_def
  fs_MkdirAll.simps fs_HasPathPrefix_def Base_def below_def walk_order_def readDirNames_def
  fs_Walk_def may_read_def may_write_def may_search_def fi_IsDir_iff isFile_iff fi_Size_def
  ModePerm_def ancestors_def

lemmas layout_defs = Join_def sharded_Dirname_def sharded_Filename_def ShardedLayout_def
  ParseLayout_sharded_def

lemmas backend_defs = Valid_def setNewFileMode_def dirExists_def Open_def Create_def
  IsNotExist_def os_IsNotExist_def os_IsExist_def Save_lockDir_def Save_def Load_def Stat_def
  Test_def Remove_def select_case_of_def List_walkFn_def List_def defaultLayout_def Let_def

lemmas example_defs = modes0_def cfg0_def parse0_def backend0_def calm_def fs_bare_def
  fs_repo_def fs_with_config_def draining_def fs_datadir_def fs_sharded_def h0_def rd0_def
  fs_saved_def full_disk_def fs_partial_def strict_def fs_twenty_def fs_listing_def
  cancelled_after_first_def h_unnamed_def snap_def

section \<open>Facts about Open and Create\<close>

lemma dirExists_iff:
  "dirExists fs p \<longleftrightarrow> (\<exists>n. resolve fs p = Inr n \<and> may_read n \<and> kind n = Directory)"
  by (auto simp: dirExists_def fs_Open_def File_Stat_def File_Close_def fi_IsDir_iff
      split: sum.splits)

lemma Create_paths_extends: "Create_paths md ds fs = (r, fs') \<Longrightarrow> extends fs fs'"
proof (induction ds arbitrary: fs)
  case Nil
  then show ?case by simp
next
  case (Cons d ds)
  obtain r1 fs1 where mk: "fs_MkdirAll fs d (Dir md) = (r1, fs1)"
    by (cases "fs_MkdirAll fs d (Dir md)") auto
  from fs_MkdirAll_grown[OF mk] have e1: "extends fs fs1" by (simp add: grown_iff)
  show ?case
  proof (cases r1)
    case None
    with Cons.prems mk have "Create_paths md ds fs1 = (r, fs')" by simp
    from Cons.IH[OF this] e1 show ?thesis by (rule extends_trans[rotated])
  next
    case (Some e)
    with Cons.prems mk e1 show ?thesis by simp
  qed
qed

lemma Create_paths_dirs:
  "Create_paths md ds fs = (None, fs') \<Longrightarrow>
     \<forall>d \<in> set ds. \<exists>n. resolve fs' d = Inr n \<and> kind n = Directory"
proof (induction ds arbitrary: fs)
  case Nil
  then show ?case by simp
next
  case (Cons d ds)
  obtain r1 fs1 where mk: "fs_MkdirAll fs d (Dir md) = (r1, fs1)"
    by (cases "fs_MkdirAll fs d (Dir md)") auto
  with Cons.prems have r1: "r1 = None" and rest: "Create_paths md ds fs1 = (None, fs')"
    by (auto split: option.splits)
  from fs_MkdirAll_is_dir mk r1 obtain n where n: "resolve fs1 d = Inr n" "kind n = Directory"
    by blast
  from resolve_extends[OF Create_paths_extends[OF rest] n(1)] n(2) Cons.IH[OF rest]
  show ?case by auto
qed

lemma Open_paths_grown:
  "Open_paths md datadir ds fs = (r, fs') \<Longrightarrow>
     extends fs fs' \<and>
     (\<forall>q n. map_of fs q = None \<longrightarrow> map_of fs' q = Some n \<longrightarrow>
        n = Node Directory (Dir md AND ModePerm) [] \<and>
        (\<exists>d \<in> set ds. prefix datadir d \<and> prefix q d))"
proof (induction ds arbitrary: fs)
  case Nil
  then show ?case by simp
next
  case (Cons d ds)
  show ?case
  proof (cases "fs_HasPathPrefix datadir d")
    case False
    with Cons.prems have "Open_paths md datadir ds fs = (r, fs')" by simp
    from Cons.IH[OF this] show ?thesis by auto
  next
    case True
    then have pre: "prefix datadir d" by (simp add: fs_HasPathPrefix_def)
    obtain r1 fs1 where mk: "fs_MkdirAll fs d (Dir md) = (r1, fs1)"
      by (cases "fs_MkdirAll fs d (Dir md)") auto
    note g = fs_MkdirAll_grown[OF mk, unfolded grown_iff]
    show ?thesis
    proof (cases r1)
      case (Some e)
      with Cons.prems True mk have "fs' = fs1" by simp
      with g pre show ?thesis by auto
    next
      case None
      with Cons.prems True mk have rest: "Open_paths md datadir ds fs1 = (r, fs')" by simp
      note ih = Cons.IH[OF rest]
      have "extends fs fs'" using g ih by (blast intro: extends_trans)
      moreover have "n = Node Directory (Dir md AND ModePerm) [] \<and>
          (\<exists>d' \<in> set (d # ds). prefix datadir d' \<and> prefix q d')"
        if "map_of fs q = None" "map_of fs' q = Some n" for q n
      proof (cases "map_of fs1 q")
        case None
        with ih that show ?thesis by auto
      next
        case (Some m)
        with g that(1) have "prefix q d" "m = Node Directory (Dir md AND ModePerm) []" by auto
        moreover from ih Some have "map_of fs' q = Some m" by (auto simp: extends_iff)
        ultimately show ?thesis using that(2) pre by auto
      qed
      ultimately show ?thesis by blast
    qed
  qed
qed

section \<open>Facts about Save\<close>

lemma fs_OpenFile_excl_Inr:
  "fs_OpenFile fs fn [O_CREATE, O_EXCL, O_WRONLY] m = (Inr f, fs2) \<Longrightarrow>
     traverse fs (ancestors fn) = None \<and> map_of fs fn = None \<and> fn \<noteq> [] \<and>
     (\<exists>d. map_of fs (butlast fn) = Some d \<and> may_write d) \<and>
     f = \<lparr>fname = fn, fnode = Node Regular (m AND ModePerm) [], pos = 0\<rparr> \<and>
     fs2 = AList.update fn (Node Regular (m AND ModePerm) []) fs"
  by (auto simp: fs_OpenFile_def Let_def split: option.splits if_splits)

lemma fs_OpenFile_Inl: "fs_OpenFile fs fn flags m = (Inl e, fs2) \<Longrightarrow> fs2 = fs"
  by (auto simp: fs_OpenFile_def Let_def split: option.splits if_splits)

lemma fs_OpenFile_excl_exists:
  "traverse fs (ancestors fn) = None \<Longrightarrow> map_of fs fn = Some n \<Longrightarrow>
     fs_OpenFile fs fn [O_CREATE, O_EXCL, O_WRONLY] m = (Inl (PathError EEXIST), fs)"
  by (simp add: fs_OpenFile_def)

lemma io_Copy_effect:
  assumes "io_Copy ev f rd fs2 = (r, fs3)" and "fname f = fn"
    and "map_of fs2 fn = Some (Node Regular pm [])"
  shows "\<exists>k \<le> length (bytes rd).
           map_of fs3 = (map_of fs2)(fn \<mapsto> Node Regular pm (take k (bytes rd))) \<and>
           (r = None \<longrightarrow> k = length (bytes rd) \<and> failure rd = None)"
proof -
  define k where "k = (case write_limit ev of None \<Rightarrow> length (bytes rd)
     | Some j \<Rightarrow> min j (length (bytes rd)))"
  have k: "k \<le> length (bytes rd)" by (simp add: k_def split: option.splits)
  from assms have fs3: "fs3 = File_Write fs2 f (take k (bytes rd))"
    by (auto simp: io_Copy_def Let_def k_def split: if_splits)
  with assms(2,3) have "map_of fs3 = (map_of fs2)(fn \<mapsto> Node Regular pm (take k (bytes rd)))"
    by (simp add: File_Write_def map_of_update)
  moreover from assms(1) have "r = None \<longrightarrow> k = length (bytes rd) \<and> failure rd = None"
    using k by (auto simp: io_Copy_def Let_def k_def split: if_splits)
  ultimately show ?thesis using k by blast
qed

lemma traverse_upd_other:
  "fn \<notin> set qs \<Longrightarrow> map_of fs' = (map_of fs)(fn \<mapsto> n) \<Longrightarrow> traverse fs' qs = traverse fs qs"
  by (rule traverse_cong) auto

lemma self_not_ancestor: "p \<notin> set (ancestors p)"
  by (simp add: set_ancestors)

lemma fs_Chmod_effect:
  "traverse fs (ancestors fn) = None \<Longrightarrow> map_of fs fn = Some n \<Longrightarrow>
     fs_Chmod fs fn m = (None, AList.update fn (Node (kind n) (m AND ModePerm) (content n)) fs)"
  by (simp add: fs_Chmod_def resolve_def)

lemma Save_cases:
  assumes "Save md ev b h rd fs = (r, fs')"
  defines "fn \<equiv> Filename (Layout b) h"
  shows "(\<exists>e. Valid h = Some e \<and> r = Some e \<and> fs' = fs) \<or>
         (Valid h = None \<and> (\<exists>e. Save_lockDir md b h fs = (Some e, fs') \<and> r = Some e)) \<or>
         (Valid h = None \<and> (\<exists>fs1. Save_lockDir md b h fs = (None, fs1) \<and>
            ((\<exists>e. fs_OpenFile fs1 fn [O_CREATE, O_EXCL, O_WRONLY] (File md) = (Inl e, fs1) \<and>
                  r = Some (Wrap e ''OpenFile'') \<and> fs' = fs1) \<or>
             (\<exists>k. written md fn rd k fs1 fs' \<and>
                  ((r = None \<and> k = length (bytes rd) \<and> failure rd = None) \<or>
                   (\<exists>e. r = Some (Wrap e ''Write'')) \<or>
                   (\<exists>e. r = Some (Wrap e ''Sync'') \<and> k = length (bytes rd)) \<or>
                   (\<exists>e. r = Some (Wrap e ''Close'') \<and> k = length (bytes rd)))))))"
proof (cases "Valid h")
  case (Some e)
  with assms(1) show ?thesis by (auto simp: Save_def)
next
  case None
  obtain r1 fs1 where ld: "Save_lockDir md b h fs = (r1, fs1)"
    by (cases "Save_lockDir md b h fs") auto
  show ?thesis
  proof (cases r1)
    case (Some e)
    with assms(1) None ld show ?thesis by (auto simp: Save_def)
  next
    case r1: None
    obtain o2 fs2 where op: "fs_OpenFile fs1 fn [O_CREATE, O_EXCL, O_WRONLY] (File md) = (o2, fs2)"
      by (cases "fs_OpenFile fs1 fn [O_CREATE, O_EXCL, O_WRONLY] (File md)") auto
    show ?thesis
    proof (cases o2)
      case (Inl e)
      with op have "fs2 = fs1" by (auto dest: fs_OpenFile_Inl)
      with assms(1) None ld r1 op Inl show ?thesis by (auto simp: Save_def fn_def)
    next
      case (Inr f)
      note o = fs_OpenFile_excl_Inr[OF op[unfolded Inr]]
      let ?pm = "File md AND ModePerm"
      have m2: "map_of fs2 = (map_of fs1)(fn \<mapsto> Node Regular ?pm [])"
        using o by (simp add: map_of_update)
      obtain r3 fs3 where cp: "io_Copy ev f rd fs2 = (r3, fs3)" by (cases "io_Copy ev f rd fs2") auto
      from io_Copy_effect[OF cp, of fn ?pm] o m2 obtain k where
        k: "k \<le> length (bytes rd)"
           "map_of fs3 = (map_of fs1)(fn \<mapsto> Node Regular ?pm (take k (bytes rd)))"
           "r3 = None \<longrightarrow> k = length (bytes rd) \<and> failure rd = None"
        by auto
      have w3: "written md fn rd k fs1 fs3" using o k by (auto simp: written_def)
      have t3: "traverse fs3 (ancestors fn) = None"
        using traverse_upd_other[OF self_not_ancestor k(2)] o by simp
      have ch: "setNewFileMode fs3 fn (File md) =
          (None, AList.update fn (Node Regular ?pm (take k (bytes rd))) fs3)"
        using fs_Chmod_effect[OF t3, of "Node Regular ?pm (take k (bytes rd))" "File md"] k(2)
        by (simp add: setNewFileMode_def)
      have w4: "written md fn rd k fs1 (AList.update fn (Node Regular ?pm (take k (bytes rd))) fs3)"
        using w3 by (simp add: written_def map_of_update)
      from assms(1) None ld r1 op Inr cp
      have S: "(r, fs') = (case r3 of Some err \<Rightarrow> (Some (Wrap err ''Write''), fs3)
            | None \<Rightarrow> (case File_Sync ev f of Some err \<Rightarrow> (Some (Wrap err ''Sync''), fs3)
               | None \<Rightarrow> (case File_Close_written ev f of Some err \<Rightarrow> (Some (Wrap err ''Close''), fs3)
                  | None \<Rightarrow> setNewFileMode fs3 fn (File md))))"
        unfolding fn_def by (auto simp: Save_def)
      have "\<exists>k. written md fn rd k fs1 fs' \<and>
                  ((r = None \<and> k = length (bytes rd) \<and> failure rd = None) \<or>
                   (\<exists>e. r = Some (Wrap e ''Write'')) \<or>
                   (\<exists>e. r = Some (Wrap e ''Sync'') \<and> k = length (bytes rd)) \<or>
                   (\<exists>e. r = Some (Wrap e ''Close'') \<and> k = length (bytes rd)))"
        using S w3 w4 k(3) ch by (auto split: option.splits)
      with None ld r1 show ?thesis by blast
    qed
  qed
qed

lemma written_extends: "written md fn rd k fs1 fs' \<Longrightarrow> extends fs1 fs'"
  by (auto simp: written_def extends_iff)

lemma written_resolve:
  "written md fn rd k fs1 fs' \<Longrightarrow>
     resolve fs' fn = Inr (Node Regular (File md AND ModePerm) (take k (bytes rd)))"
  using traverse_extends[OF written_extends, of md fn rd k fs1 fs' "ancestors fn"]
  by (auto simp: written_def resolve_Inr_iff)

lemma Save_ok:
  assumes "Save md ev b h rd fs = (None, fs')"
  shows "Valid h = None \<and> failure rd = None \<and>
         (\<exists>fs1. Save_lockDir md b h fs = (None, fs1) \<and>
                written md (Filename (Layout b) h) rd (length (bytes rd)) fs1 fs')"
  using Save_cases[OF assms] by auto

lemma may_read_perm: "may_read (Node kd (m AND ModePerm) c) \<longleftrightarrow> m AND 256 \<noteq> 0"
  by (simp add: may_read_def ModePerm_def word_bw_assocs)

lemma may_write_perm: "may_write (Node kd (m AND ModePerm) c) \<longleftrightarrow> m AND 128 \<noteq> 0"
  by (simp add: may_write_def ModePerm_def word_bw_assocs)

lemma Load_whole:
  "Valid h = None \<Longrightarrow> resolve fs (Filename (Layout b) h) = Inr n \<Longrightarrow> kind n \<noteq> Directory \<Longrightarrow>
     may_read n \<Longrightarrow> Load b h 0 0 fs = Inr \<lparr>bytes = content n, failure = None\<rparr>"
  by (simp add: Load_def fs_Open_def File_reader_def)

lemma Save_then_Load:
  assumes "Save md ev b h rd fs = (None, fs')" and "File md AND 256 \<noteq> 0"
  shows "Load b h 0 0 fs' = Inr \<lparr>bytes = bytes rd, failure = None\<rparr>"
proof -
  from Save_ok[OF assms(1)] obtain fs1 where v: "Valid h = None"
    and w: "written md (Filename (Layout b) h) rd (length (bytes rd)) fs1 fs'"
    by blast
  from Load_whole[OF v written_resolve[OF w]] assms(2) show ?thesis
    by (simp add: may_read_perm)
qed

lemma Save_lockDir_dir:
  assumes "Save_lockDir md b h fs = (None, fs1)" and "Type h = LockFile"
  shows "\<exists>n. resolve fs1 (Dirname (Layout b) h) = Inr n \<and> kind n = Directory"
proof (cases "dirExists fs (Dirname (Layout b) h)")
  case True
  with assms have "fs1 = fs" by (simp add: Save_lockDir_def)
  with True show ?thesis by (auto simp: dirExists_iff)
next
  case False
  with assms have "fs_MkdirAll fs (Dirname (Layout b) h) (Dir md) = (None, fs1)"
    by (auto simp: Save_lockDir_def Let_def split: option.splits prod.splits)
  then show ?thesis by (rule fs_MkdirAll_is_dir)
qed

lemma Save_lockDir_again:
  assumes "Save_lockDir md b h fs = (None, fs1)" and "extends fs1 fs'"
  shows "Save_lockDir md b h fs' = (None, fs')"
proof (cases "Type h = LockFile")
  case False
  then show ?thesis by (simp add: Save_lockDir_def)
next
  case True
  from Save_lockDir_dir[OF assms(1) True] obtain n where
    "resolve fs1 (Dirname (Layout b) h) = Inr n" "kind n = Directory" by blast
  with resolve_extends[OF assms(2)] have "fs_Stat fs' (Dirname (Layout b) h) = Inr n"
    and "fi_IsDir n"
    by (simp_all add: fs_Stat_Inr_iff fi_IsDir_iff)
  then have "fs_MkdirAll fs' (Dirname (Layout b) h) (Dir md) = (None, fs')"
    by (simp add: fs_MkdirAll.simps[of fs'])
  then show ?thesis by (simp add: Save_lockDir_def Let_def)
qed

lemma Save_again:
  assumes "Save md ev b h rd fs = (None, fs')"
  shows "Save md ev' b h rd' fs' = (Some (Wrap (PathError EEXIST) ''OpenFile''), fs')"
proof -
  from Save_ok[OF assms(1)] obtain fs1 where v: "Valid h = None"
    and l: "Save_lockDir md b h fs = (None, fs1)"
    and w: "written md (Filename (Layout b) h) rd (length (bytes rd)) fs1 fs'"
    by blast
  note l' = Save_lockDir_again[OF l written_extends[OF w]]
  from written_resolve[OF w] have
    "fs_OpenFile fs' (Filename (Layout b) h) [O_CREATE, O_EXCL, O_WRONLY] (File md) =
       (Inl (PathError EEXIST), fs')"
    by (auto simp: resolve_Inr_iff intro: fs_OpenFile_excl_exists)
  with v l' show ?thesis by (simp add: Save_def)
qed

lemma Save_lockDir_is_dir:
  assumes "resolve fs (Dirname (Layout b) h) = Inr n" and "kind n = Directory"
  shows "Save_lockDir md b h fs = (None, fs)"
proof -
  from assms have "fs_MkdirAll fs (Dirname (Layout b) h) (Dir md) = (None, fs)"
    by (simp add: fs_MkdirAll.simps[of fs] fs_Stat_def fi_IsDir_iff)
  then show ?thesis by (simp add: Save_lockDir_def Let_def)
qed

lemma resolve_ancestor:
  assumes "traverse fs (ancestors p) = None" and "strict_prefix q p"
  shows "\<exists>d. resolve fs q = Inr d \<and> kind d = Directory"
proof -
  from assms have "\<exists>d. map_of fs q = Some d \<and> kind d = Directory"
    by (auto simp: traverse_None_iff set_ancestors)
  moreover have "traverse fs (ancestors q) = None"
    using assms by (auto simp: traverse_None_iff set_ancestors)
  ultimately show ?thesis by (auto simp: resolve_Inr_iff)
qed

lemma Save_existing:
  assumes "Valid h = None" and "fs_Stat fs (Filename (Layout b) h) = Inr n"
    and "Type h = LockFile \<longrightarrow> strict_prefix (Dirname (Layout b) h) (Filename (Layout b) h)"
  shows "Save md ev b h rd fs = (Some (Wrap (PathError EEXIST) ''OpenFile''), fs)"
proof -
  from assms(2) have r: "traverse fs (ancestors (Filename (Layout b) h)) = None"
    "map_of fs (Filename (Layout b) h) = Some n"
    by (simp_all add: fs_Stat_Inr_iff resolve_Inr_iff)
  have l: "Save_lockDir md b h fs = (None, fs)"
  proof (cases "Type h = LockFile")
    case False
    then show ?thesis by (simp add: Save_lockDir_def)
  next
    case True
    with assms(3) resolve_ancestor[OF r(1)] show ?thesis
      by (blast intro: Save_lockDir_is_dir)
  qed
  from fs_OpenFile_excl_exists[OF r] assms(1) l show ?thesis
    by (simp add: Save_def)
qed






section \<open>Facts about Remove\<close>

lemma map_of_delete: "map_of (AList.delete k fs) = (map_of fs)(k := None)"
  by (rule delete_conv')

lemma butlast_neq: "p \<noteq> [] \<Longrightarrow> butlast p \<noteq> p"
  by (cases p rule: rev_cases) auto

lemma Test_False_iff: "Test b h fs = Inr False \<longleftrightarrow> resolve fs (Filename (Layout b) h) = Inl ENOENT"
  by (auto simp: Test_def fs_Stat_def os_IsNotExist_def split: sum.splits if_splits)

lemma Remove_missing:
  assumes "Test b h fs = Inr False"
  shows "Remove ev b h fs = (Some (Wrap (PathError ENOENT) ''Chmod''), fs)"
  using assms by (simp add: Test_False_iff Remove_def fs_Chmod_def)

lemma Remove_written:
  assumes w: "written md fn rd k fs1 fs'" and fn: "fn = Filename (Layout b) h"
  shows "\<exists>fs''. Remove ev b h fs' = (None, fs'') \<and> map_of fs'' = (map_of fs')(fn := None) \<and>
           Test b h fs'' = Inr False"
proof -
  let ?n = "Node Regular (File md AND ModePerm) (take k (bytes rd))"
  let ?n' = "Node Regular (438 AND ModePerm) (take k (bytes rd))"
  let ?fsA = "AList.update fn ?n' fs'"
  from written_resolve[OF w] have r: "traverse fs' (ancestors fn) = None" "map_of fs' fn = Some ?n"
    by (simp_all add: resolve_Inr_iff)
  from fs_Chmod_effect[OF r, of 438] have ch: "fs_Chmod fs' fn 438 = (None, ?fsA)" by simp
  have mA: "map_of ?fsA = (map_of fs')(fn \<mapsto> ?n')" by (simp add: map_of_update)
  have tA: "traverse ?fsA (ancestors fn) = None"
    using traverse_upd_other[OF self_not_ancestor mA] r by simp
  from w have ne: "fn \<noteq> []" by (simp add: written_def)
  from w obtain d where d: "map_of fs1 (butlast fn) = Some d" "may_write d"
    by (auto simp: written_def split: option.splits)
  with w butlast_neq[OF ne] have dA: "map_of ?fsA (butlast fn) = Some d"
    by (simp add: mA written_def)
  have wr: "may_write ?n'" by (simp add: may_write_def ModePerm_def)
  have rm: "fs_Remove ev ?fsA fn = (None, AList.delete fn ?fsA)"
    using tA mA ne dA d(2) wr by (simp add: fs_Remove_def resolve_def)
  let ?fs'' = "AList.delete fn ?fsA"
  have m2: "map_of ?fs'' = (map_of fs')(fn := None)"
    by (simp add: map_of_delete mA)
  have "traverse ?fs'' (ancestors fn) = None"
  proof -
    have "traverse ?fs'' (ancestors fn) = traverse fs' (ancestors fn)"
      by (rule traverse_cong) (auto simp: m2 set_ancestors)
    with r show ?thesis by simp
  qed
  then have "resolve ?fs'' fn = Inl ENOENT" by (simp add: resolve_def m2)
  then have "Test b h ?fs'' = Inr False" by (simp add: Test_False_iff fn)
  with ch rm m2 show ?thesis by (simp add: Remove_def fn[symmetric])
qed

lemma fs_Remove_readonly:
  assumes w: "written md fn rd k fs1 fs'" and "readonly_undeletable ev" and "File md AND 128 = 0"
  shows "fs_Remove ev fs' fn = (Some (PathError EACCES), fs')"
proof -
  let ?n = "Node Regular (File md AND ModePerm) (take k (bytes rd))"
  from written_resolve[OF w] have r: "resolve fs' fn = Inr ?n" .
  from w have ne: "fn \<noteq> []" by (simp add: written_def)
  from w obtain d where d: "map_of fs1 (butlast fn) = Some d" "may_write d"
    by (auto simp: written_def split: option.splits)
  with w butlast_neq[OF ne] have dA: "map_of fs' (butlast fn) = Some d"
    by (simp add: written_def)
  from assms(3) have "\<not> may_write ?n" by (simp add: may_write_perm)
  with r ne dA d(2) assms(2) show ?thesis by (simp add: fs_Remove_def)
qed

section \<open>Facts about Load\<close>

lemma LimitReadCloser_take:
  "failure r = None \<Longrightarrow> LimitReadCloser r k = \<lparr>bytes = take k (bytes r), failure = None\<rparr>"
  by (cases r) (simp add: LimitReadCloser_def)

section \<open>Facts about List\<close>












section \<open>Facts about errors\<close>

lemma Valid_error_New: "Valid h = Some e \<Longrightarrow> \<exists>msg. e = New msg"
  by (auto simp: Valid_def split: FileType.splits if_splits)

lemma Test_error_Wrap: "Test b h fs = Inl e \<Longrightarrow> \<exists>c. e = Wrap c ''Stat''"
  by (auto simp: Test_def split: sum.splits if_splits)

lemma fs_Remove_error: "fs_Remove ev fs p = (Some e, fs') \<Longrightarrow> \<exists>c. e = PathError c"
  by (auto simp: fs_Remove_def split: sum.splits option.splits if_splits)

lemma Remove_error:
  "Remove ev b h fs = (Some e, fs') \<Longrightarrow> (\<exists>c. e = Wrap c ''Chmod'') \<or> (\<exists>c. e = PathError c)"
  by (auto simp: Remove_def Let_def split: prod.splits option.splits dest: fs_Remove_error)

section \<open>The claims\<close>

subsection \<open>C1: Save never overwrites\<close>

text \<open>
  Claim C1. \<open>Save\<close> on a valid handle at which \<open>Stat\<close> finds an object fails with
  the error of the exclusive open, which \<^verbatim>\<open>os.IsExist\<close> classifies as
  already-exists, and returns the file system as it was. (For a lock the layout must put
  the lock's directory above its file name, as the layouts do.) In particular, after
  \<open>Save(h, d1)\<close> has succeeded, \<open>Save(h, d2)\<close> fails in this way whatever the data
  and the environment, and \<open>Load(h, 0, 0)\<close> afterwards still yields \<open>d1\<close>.
\<close>

theorem Save_existing_fails:
  "(Valid h = None \<and> fs_Stat fs (Filename (Layout b) h) = Inr n \<and>
    (Type h = LockFile \<longrightarrow> strict_prefix (Dirname (Layout b) h) (Filename (Layout b) h)) \<longrightarrow>
      Save md ev b h rd fs = (Some (Wrap (PathError EEXIST) ''OpenFile''), fs) \<and>
      os_IsExist (Cause (Wrap (PathError EEXIST) ''OpenFile''))) \<and>
   (Save md ev b h rd fs = (None, fs') \<and> File md AND 256 \<noteq> 0 \<longrightarrow>
      Save md ev' b h rd' fs' = (Some (Wrap (PathError EEXIST) ''OpenFile''), fs') \<and>
      Load b h 0 0 (snd (Save md ev' b h rd' fs')) = Inr \<lparr>bytes = bytes rd, failure = None\<rparr>)"
proof (intro conjI impI)
  assume a: "Valid h = None \<and> fs_Stat fs (Filename (Layout b) h) = Inr n \<and>
    (Type h = LockFile \<longrightarrow> strict_prefix (Dirname (Layout b) h) (Filename (Layout b) h))"
  then show "Save md ev b h rd fs = (Some (Wrap (PathError EEXIST) ''OpenFile''), fs)"
    by (intro Save_existing) auto
  show "os_IsExist (Cause (Wrap (PathError EEXIST) ''OpenFile''))"
    by (simp add: os_IsExist_def)
next
  assume a: "Save md ev b h rd fs = (None, fs') \<and> File md AND 256 \<noteq> 0"
  then show s2: "Save md ev' b h rd' fs' = (Some (Wrap (PathError EEXIST) ''OpenFile''), fs')"
    by (intro Save_again) auto
  from a show "Load b h 0 0 (snd (Save md ev' b h rd' fs')) =
      Inr \<lparr>bytes = bytes rd, failure = None\<rparr>"
    unfolding s2 by (auto intro: Save_then_Load)
qed

text \<open>The theorem at work: a second Save of the object saved above.\<close>

theorem Save_existing_fails_witness:
  "Valid h0 = None \<and>
   fs_Stat fs_saved (Filename (Layout backend0) h0) = Inr (Node Regular 256 [1, 2, 3]) \<and>
   Type h0 \<noteq> LockFile \<and>
   Save modes0 calm backend0 h0 rd0 fs_repo = (None, fs_saved) \<and>
   File modes0 AND 256 \<noteq> 0 \<and>
   Save modes0 calm backend0 h0 \<lparr>bytes = [9], failure = None\<rparr> fs_saved =
     (Some (Wrap (PathError EEXIST) ''OpenFile''), fs_saved) \<and>
   Load backend0 h0 0 0 fs_saved = Inr \<lparr>bytes = [1, 2, 3], failure = None\<rparr>"
proof -
  have v: "Valid h0 = None" by (simp add: h0_def Valid_def)
  have t: "Type h0 \<noteq> LockFile" by (simp add: h0_def)
  have st: "fs_Stat fs_saved (Filename (Layout backend0) h0) = Inr (Node Regular 256 [1, 2, 3])"
    by (simp add: example_defs layout_defs fs_defs)
  have s: "Save modes0 calm backend0 h0 rd0 fs_repo = (None, fs_saved)"
    by (simp add: example_defs layout_defs fs_defs backend_defs)
  have m: "File modes0 AND 256 \<noteq> 0"
    by (simp add: modes0_def)
  from Save_existing_fails[where h = h0 and fs = fs_saved and b = backend0
      and n = "Node Regular 256 [1, 2, 3]" and md = modes0 and ev = calm
      and rd = "\<lparr>bytes = [9], failure = None\<rparr>"] v t st
  have one: "Save modes0 calm backend0 h0 \<lparr>bytes = [9], failure = None\<rparr> fs_saved =
     (Some (Wrap (PathError EEXIST) ''OpenFile''), fs_saved)"
    by simp
  from Save_existing_fails[where h = h0 and fs = fs_repo and b = backend0
      and md = modes0 and ev = calm and rd = rd0 and fs' = fs_saved and ev' = calm
      and rd' = "\<lparr>bytes = [9], failure = None\<rparr>"] s m one
  have "Load backend0 h0 0 0 fs_saved = Inr \<lparr>bytes = [1, 2, 3], failure = None\<rparr>"
    by (simp add: rd0_def)
  with v t st s m one show ?thesis by blast
qed

subsection \<open>C2: Save and Load round-trip\<close>



subsection \<open>C3: what a failed Save leaves behind\<close>




subsection \<open>C4: which operations check the handle\<close>

text \<open>
  Claim C4 says that \<open>Save\<close>, \<open>Load\<close>, \<open>Stat\<close>, \<open>Test\<close> and \<open>Remove\<close> all
  call \<open>Valid\<close> first and return its error for an invalid handle without going to
  the file system. \<open>Save\<close>, \<open>Load\<close> and \<open>Stat\<close> do: for an invalid handle each
  returns the validation error, and \<open>Save\<close> returns the file system as it was.
  \<open>Test\<close> and \<open>Remove\<close> contain no call of \<open>Valid\<close>: whatever the handle,
  the layout and the file system, neither ever returns the validation error; they go
  to the path the layout gives the handle.
\<close>

theorem Test_Remove_skip_Valid:
  assumes "Valid h = Some e"
  shows "Save md ev b h rd fs = (Some e, fs) \<and>
         Load b h len offset fs = Inl e \<and>
         Stat b h fs = Inl e \<and>
         Test b h fs \<noteq> Inl e \<and>
         fst (Remove ev b h fs) \<noteq> Some e"
proof -
  from Valid_error_New[OF assms] obtain msg where e: "e = New msg" by blast
  have "Test b h fs \<noteq> Inl e"
    using Test_error_Wrap[of b h fs e] e by auto
  moreover have "fst (Remove ev b h fs) \<noteq> Some e"
    using Remove_error[of ev b h fs e "snd (Remove ev b h fs)"] e
    by (cases "Remove ev b h fs") auto
  ultimately show ?thesis using assms by (simp add: Save_def Load_def Stat_def)
qed

text \<open>
  The operations on a data handle without a name, which the sharded layout sends to the
  data directory itself: \<open>Test\<close> answers that the object exists, and \<open>Remove\<close>
  changes the mode of the data directory to \<open>0666\<close> before its removal is refused
  because the directory is not empty. The directory can then no longer be searched, and
  \<open>Test\<close> on the object saved in it fails.
\<close>

theorem Test_Remove_skip_Valid_witness:
  "Valid h_unnamed = Some (New ''invalid Name'') \<and>
   Save modes0 calm backend0 h_unnamed rd0 fs_saved = (Some (New ''invalid Name''), fs_saved) \<and>
   Load backend0 h_unnamed 0 0 fs_saved = Inl (New ''invalid Name'') \<and>
   Stat backend0 h_unnamed fs_saved = Inl (New ''invalid Name'') \<and>
   Test backend0 h_unnamed fs_saved = Inr True \<and>
   Remove calm backend0 h_unnamed fs_saved =
     (Some (PathError ENOTEMPTY),
      AList.update [''repo'', ''data''] (Node Directory 438 []) fs_saved) \<and>
   Test backend0 h0 fs_saved = Inr True \<and>
   Test backend0 h0 (snd (Remove calm backend0 h_unnamed fs_saved)) =
     Inl (Wrap (PathError EACCES) ''Stat'')"
proof -
  have v: "Valid h_unnamed = Some (New ''invalid Name'')"
    by (simp add: h_unnamed_def Valid_def)
  have t: "Test backend0 h_unnamed fs_saved = Inr True"
    by (simp add: example_defs layout_defs fs_defs backend_defs)
  have r: "Remove calm backend0 h_unnamed fs_saved =
     (Some (PathError ENOTEMPTY),
      AList.update [''repo'', ''data''] (Node Directory 438 []) fs_saved)"
    by (simp add: example_defs layout_defs fs_defs backend_defs)
  have t0: "Test backend0 h0 fs_saved = Inr True"
    by (simp add: example_defs layout_defs fs_defs backend_defs)
  have t1: "Test backend0 h0 (snd (Remove calm backend0 h_unnamed fs_saved)) =
     Inl (Wrap (PathError EACCES) ''Stat'')"
    by (simp add: example_defs layout_defs fs_defs backend_defs)
  from Test_Remove_skip_Valid[OF v, of modes0 calm backend0 rd0 fs_saved 0 0]
  have "Save modes0 calm backend0 h_unnamed rd0 fs_saved = (Some (New ''invalid Name''), fs_saved) \<and>
   Load backend0 h_unnamed 0 0 fs_saved = Inl (New ''invalid Name'') \<and>
   Stat backend0 h_unnamed fs_saved = Inl (New ''invalid Name'')"
    by blast
  with v t r t0 t1 show ?thesis by blast
qed

subsection \<open>C5: Load yields the requested range\<close>

text \<open>
  Claim C5. For a valid handle, \<open>Load\<close> with a negative offset returns the error
  ``offset is negative'' whatever the file system holds, so before it is looked at. With
  an offset that is not negative, on an object that exists as a readable regular file,
  \<open>Load\<close> returns a stream that ends without an error and yields the bytes of the
  object from the offset on: at most \<open>length\<close> of them when \<open>length > 0\<close>, all of
  them to the end of the object otherwise.
\<close>

theorem Load_range:
  assumes "Valid h = None"
  shows "(sint offset < 0 \<longrightarrow> Load b h len offset fs = Inl (New ''offset is negative'')) \<and>
         (0 \<le> sint offset \<and> fs_Stat fs (Filename (Layout b) h) = Inr n \<and>
          kind n = Regular \<and> may_read n \<longrightarrow>
            Load b h len offset fs =
              Inr \<lparr>bytes = (if 0 < sint len
                             then take (nat (sint len)) (drop (nat (sint offset)) (content n))
                             else drop (nat (sint offset)) (content n)),
                   failure = None\<rparr>)"
proof (intro conjI impI)
  assume "sint offset < 0"
  with assms show "Load b h len offset fs = Inl (New ''offset is negative'')"
    by (simp add: Load_def)
next
  assume a: "0 \<le> sint offset \<and> fs_Stat fs (Filename (Layout b) h) = Inr n \<and>
          kind n = Regular \<and> may_read n"
  then have o: "fs_Open fs (Filename (Layout b) h) =
      Inr \<lparr>fname = Filename (Layout b) h, fnode = n, pos = 0\<rparr>"
    by (simp add: fs_Open_def fs_Stat_Inr_iff)
  let ?f = "\<lparr>fname = Filename (Layout b) h, fnode = n, pos = 0\<rparr>"
  have sk: "(if sint offset > 0 then File_Seek ?f (nat (sint offset)) else Inr ?f) =
      Inr (?f\<lparr>pos := nat (sint offset)\<rparr>)"
    using a by (auto simp: File_Seek_def)
  have rd: "File_reader (?f\<lparr>pos := nat (sint offset)\<rparr>) =
      \<lparr>bytes = drop (nat (sint offset)) (content n), failure = None\<rparr>"
    using a by (simp add: File_reader_def)
  from assms a o sk rd show "Load b h len offset fs =
              Inr \<lparr>bytes = (if 0 < sint len
                             then take (nat (sint len)) (drop (nat (sint offset)) (content n))
                             else drop (nat (sint offset)) (content n)),
                   failure = None\<rparr>"
    by (simp add: Load_def LimitReadCloser_take)
qed

text \<open>The theorem at work: bytes 3 to 7 of twenty, the last three, and a negative offset.\<close>

theorem Load_range_witness:
  "Valid h0 = None \<and>
   sint (- 1 :: 64 word) < 0 \<and>
   Load backend0 h0 5 (- 1) fs_twenty = Inl (New ''offset is negative'') \<and>
   fs_Stat fs_twenty (Filename (Layout backend0) h0) =
     Inr (Node Regular 256 [0, 1, 2, 3, 4, 5, 6, 7, 8, 9, 10, 11, 12, 13, 14, 15, 16, 17, 18, 19]) \<and>
   Load backend0 h0 5 3 fs_twenty = Inr \<lparr>bytes = [3, 4, 5, 6, 7], failure = None\<rparr> \<and>
   Load backend0 h0 0 17 fs_twenty = Inr \<lparr>bytes = [17, 18, 19], failure = None\<rparr>"
proof -
  let ?n = "Node Regular 256 [0, 1, 2, 3, 4, 5, 6, 7, 8, 9, 10, 11, 12, 13, 14, 15, 16, 17, 18, 19]"
  have v: "Valid h0 = None" by (simp add: h0_def Valid_def)
  have neg: "sint (- 1 :: 64 word) < 0" by simp
  have st: "fs_Stat fs_twenty (Filename (Layout backend0) h0) = Inr ?n"
    by (simp add: example_defs layout_defs fs_defs)
  have k: "kind ?n = Regular \<and> may_read ?n" by (simp add: may_read_def)
  note L = Load_range[OF v, where b = backend0 and fs = fs_twenty and n = ?n]
  from L[of "- 1" 5] neg have 1: "Load backend0 h0 5 (- 1) fs_twenty = Inl (New ''offset is negative'')"
    by blast
  from L[of 3 5] st k have 2: "Load backend0 h0 5 3 fs_twenty = Inr \<lparr>bytes = [3, 4, 5, 6, 7], failure = None\<rparr>"
    by simp
  from L[of 17 0] st k have 3: "Load backend0 h0 0 17 fs_twenty = Inr \<lparr>bytes = [17, 18, 19], failure = None\<rparr>"
    by simp
  from v neg 1 st 2 3 show ?thesis by blast
qed

subsection \<open>C6: cancelling List\<close>

text \<open>
  Claim C6 says that once the context is cancelled the producer stops the walk and
  sends no further name. In the function that \<open>List\<close> hands to \<^verbatim>\<open>fs.Walk\<close>, the
  branch taken when the \<^verbatim>\<open>Done\<close> channel wins the \<^verbatim>\<open>select\<close> returns the
  variable \<open>err\<close>, which is nil there. The walk stops only when the function returns
  an error, so it goes on to the next entry with nothing changed but the count of
  \<^verbatim>\<open>select\<close>s: for every regular file at which the \<^verbatim>\<open>Done\<close> case is taken, the
  function returns no error and the walk of the remaining entries is the walk it would
  have been anyway.
\<close>

theorem List_walk_goes_on_after_cancel:
  assumes "fs_Lstat fs p = Inr info" and "isFile info" and "\<not> parked s"
    and "select_case_of (ctx (selects s)) = Some CaseDone"
  shows "List_walkFn ctx p (Some info) None s = (None, s\<lparr>selects := Suc (selects s)\<rparr>) \<and>
         walk_entries fs (List_walkFn ctx) (p # ps) s =
           walk_entries fs (List_walkFn ctx) ps (s\<lparr>selects := Suc (selects s)\<rparr>)"
proof -
  have cb: "List_walkFn ctx p (Some info) None s = (None, s\<lparr>selects := Suc (selects s)\<rparr>)"
    using assms by (simp add: List_walkFn_def)
  from assms(2) have "\<not> fi_IsDir info" by (simp add: isFile_iff fi_IsDir_iff)
  with assms(1) cb show ?thesis by simp
qed

text \<open>
  A run in which this shows: of the snapshots \<open>a\<close>, \<open>b\<close> and \<open>c\<close> the first is
  sent, the context is cancelled, at \<open>b\<close> the \<^verbatim>\<open>Done\<close> case is taken, and at
  \<open>c\<close>, where the consumer receives again, the name \<open>c\<close> is sent although the
  context was cancelled before.
\<close>

theorem List_walk_goes_on_after_cancel_witness:
  "fs_Lstat fs_listing [''repo'', ''snapshots'', ''b''] = Inr (Node Regular 256 [2]) \<and>
   isFile (Node Regular 256 [2]) \<and>
   cancelled (cancelled_after_first 1) \<and>
   select_case_of (cancelled_after_first 1) = Some CaseDone \<and>
   walk_entries fs_listing (List_walkFn cancelled_after_first)
     [[''repo'', ''snapshots'', ''b''], [''repo'', ''snapshots'', ''c''],
      [''repo'', ''snapshots'', ''tmp''], [''repo'', ''snapshots'', ''tty'']]
     \<lparr>sent = [''a''], selects = 1, parked = False\<rparr> =
     (None, \<lparr>sent = [''a'', ''c''], selects = 3, parked = False\<rparr>) \<and>
   List cancelled_after_first backend0 SnapshotFile fs_listing =
     \<lparr>names = [''a'', ''c''], closed = True\<rparr>"
proof -
  let ?s = "\<lparr>sent = [''a''], selects = 1, parked = False\<rparr>"
  have l: "fs_Lstat fs_listing [''repo'', ''snapshots'', ''b''] = Inr (Node Regular 256 [2])"
    by (simp add: example_defs fs_defs)
  have f: "isFile (Node Regular 256 [2])" by (simp add: isFile_iff)
  have c: "cancelled (cancelled_after_first 1)" by (simp add: cancelled_after_first_def)
  have d: "select_case_of (cancelled_after_first (selects ?s)) = Some CaseDone"
    by (simp add: cancelled_after_first_def select_case_of_def)
  have p: "\<not> parked ?s" by simp
  have rest: "walk_entries fs_listing (List_walkFn cancelled_after_first)
     [[''repo'', ''snapshots'', ''c''], [''repo'', ''snapshots'', ''tmp''],
      [''repo'', ''snapshots'', ''tty'']]
     (?s\<lparr>selects := Suc (selects ?s)\<rparr>) =
     (None, \<lparr>sent = [''a'', ''c''], selects = 3, parked = False\<rparr>)"
    by (simp add: example_defs fs_defs backend_defs)
  have all: "List cancelled_after_first backend0 SnapshotFile fs_listing =
     \<lparr>names = [''a'', ''c''], closed = True\<rparr>"
    by (simp add: example_defs layout_defs fs_defs backend_defs)
  from List_walk_goes_on_after_cancel[where fs = fs_listing
      and p = "[''repo'', ''snapshots'', ''b'']" and info = "Node Regular 256 [2]"
      and s = ?s and ctx = cancelled_after_first
      and ps = "[[''repo'', ''snapshots'', ''c''], [''repo'', ''snapshots'', ''tmp''],
                 [''repo'', ''snapshots'', ''tty'']]"] l f p d rest
  have "walk_entries fs_listing (List_walkFn cancelled_after_first)
     [[''repo'', ''snapshots'', ''b''], [''repo'', ''snapshots'', ''c''],
      [''repo'', ''snapshots'', ''tmp''], [''repo'', ''snapshots'', ''tty'']] ?s =
     (None, \<lparr>sent = [''a'', ''c''], selects = 3, parked = False\<rparr>)"
    by (simp del: walk_entries.simps)
  with l f c d all show ?thesis by simp
qed

subsection \<open>C7: what List yields\<close>




subsection \<open>C8: Remove makes the file writable and deletes it\<close>

text \<open>
  Claim C8. On an object that \<open>Save\<close> has just written, \<open>Remove\<close> succeeds on
  every platform, also on one that refuses to delete a file that is not writable:
  afterwards \<open>Test\<close> finds nothing under the handle and every other entry is as it
  was. The change of mode is what makes this work: on such a platform, with a file mode
  without the write bit, the bare \<^verbatim>\<open>fs.Remove\<close> of the saved file is refused.
  \<open>Remove\<close> on a handle under which \<open>Test\<close> finds nothing fails, changes
  nothing, and \<open>IsNotExist\<close> holds of its error.
\<close>

theorem Remove_resets_mode:
  "(Save md ev b h rd fs = (None, fs') \<longrightarrow>
      (\<exists>fs''. Remove ev' b h fs' = (None, fs'') \<and> Test b h fs'' = Inr False \<and>
         (\<forall>q. q \<noteq> Filename (Layout b) h \<longrightarrow> map_of fs'' q = map_of fs' q)) \<and>
      (readonly_undeletable ev' \<and> File md AND 128 = 0 \<longrightarrow>
         fs_Remove ev' fs' (Filename (Layout b) h) = (Some (PathError EACCES), fs'))) \<and>
   (Test b h fs = Inr False \<longrightarrow>
      (\<exists>e. Remove ev' b h fs = (Some e, fs) \<and> IsNotExist b e))"
proof (intro conjI impI)
  assume "Save md ev b h rd fs = (None, fs')"
  from Save_ok[OF this] obtain fs1 where
    w: "written md (Filename (Layout b) h) rd (length (bytes rd)) fs1 fs'"
    by blast
  from Remove_written[OF w refl, of ev']
  show "\<exists>fs''. Remove ev' b h fs' = (None, fs'') \<and> Test b h fs'' = Inr False \<and>
         (\<forall>q. q \<noteq> Filename (Layout b) h \<longrightarrow> map_of fs'' q = map_of fs' q)"
    by auto
  assume "readonly_undeletable ev' \<and> File md AND 128 = 0"
  with fs_Remove_readonly[OF w]
  show "fs_Remove ev' fs' (Filename (Layout b) h) = (Some (PathError EACCES), fs')"
    by blast
next
  assume "Test b h fs = Inr False"
  from Remove_missing[OF this, of ev']
  show "\<exists>e. Remove ev' b h fs = (Some e, fs) \<and> IsNotExist b e"
    by (simp add: IsNotExist_def os_IsNotExist_def)
qed

text \<open>The theorem at work: the object saved above is removed on a strict platform, and removed once more.\<close>

theorem Remove_resets_mode_witness:
  "Save modes0 calm backend0 h0 rd0 fs_repo = (None, fs_saved) \<and>
   Remove strict backend0 h0 fs_saved = (None, fs_repo) \<and>
   Test backend0 h0 fs_repo = Inr False \<and>
   readonly_undeletable strict \<and> File modes0 AND 128 = 0 \<and>
   fs_Remove strict fs_saved (Filename (Layout backend0) h0) = (Some (PathError EACCES), fs_saved) \<and>
   Remove strict backend0 h0 fs_repo = (Some (Wrap (PathError ENOENT) ''Chmod''), fs_repo) \<and>
   IsNotExist backend0 (Wrap (PathError ENOENT) ''Chmod'')"
proof -
  have s: "Save modes0 calm backend0 h0 rd0 fs_repo = (None, fs_saved)"
    by (simp add: example_defs layout_defs fs_defs backend_defs)
  have r: "Remove strict backend0 h0 fs_saved = (None, fs_repo)"
    by (simp add: example_defs layout_defs fs_defs backend_defs)
  have t: "Test backend0 h0 fs_repo = Inr False"
    by (simp add: example_defs layout_defs fs_defs backend_defs)
  have p: "readonly_undeletable strict \<and> File modes0 AND 128 = 0"
    by (simp add: example_defs)
  have m: "Remove strict backend0 h0 fs_repo = (Some (Wrap (PathError ENOENT) ''Chmod''), fs_repo)"
    by (simp add: example_defs layout_defs fs_defs backend_defs)
  from Remove_resets_mode[where md = modes0 and ev = calm and b = backend0 and h = h0
      and rd = rd0 and fs = fs_repo and fs' = fs_saved and ev' = strict] s p t m
  have "fs_Remove strict fs_saved (Filename (Layout backend0) h0) =
          (Some (PathError EACCES), fs_saved) \<and>
        IsNotExist backend0 (Wrap (PathError ENOENT) ''Chmod'')"
    by auto
  with s r t p m show ?thesis by blast
qed

subsection \<open>C9: Create refuses a root that has a config object\<close>

text \<open>
  Claim C9. When the config object exists at the path the layout gives it (\<open>Lstat\<close>
  finds it), \<open>Create\<close> fails with the error ``config file already exists'' and
  returns the file system as it was: no directory is made. When \<open>Create\<close> succeeds,
  \<open>Lstat\<close> had found no config object, every entry of the file system is kept, and
  every path of \<open>Paths()\<close> is a directory afterwards.
\<close>

theorem Create_config_exists:
  "(parse fs (LayoutName cfg) defaultLayout (Path cfg) = Inr l \<and>
    fs_Lstat fs (Filename l \<lparr>Type = ConfigFile, Name = []\<rparr>) = Inr fi \<longrightarrow>
      Create parse md cfg fs = (Inl (New ''config file already exists''), fs)) \<and>
   (Create parse md cfg fs = (Inr be, fs') \<longrightarrow>
      (\<exists>err. fs_Lstat fs (Filename (Layout be) \<lparr>Type = ConfigFile, Name = []\<rparr>) = Inl err) \<and>
      extends fs fs' \<and>
      (\<forall>d \<in> set (Paths (Layout be)). \<exists>n. fs_Stat fs' d = Inr n \<and> fi_IsDir n))"
proof (intro conjI impI)
  assume "parse fs (LayoutName cfg) defaultLayout (Path cfg) = Inr l \<and>
    fs_Lstat fs (Filename l \<lparr>Type = ConfigFile, Name = []\<rparr>) = Inr fi"
  then show "Create parse md cfg fs = (Inl (New ''config file already exists''), fs)"
    by (simp add: Create_def)
next
  assume ok: "Create parse md cfg fs = (Inr be, fs')"
  then obtain l where l: "parse fs (LayoutName cfg) defaultLayout (Path cfg) = Inr l"
    by (cases "parse fs (LayoutName cfg) defaultLayout (Path cfg)") (auto simp: Create_def)
  from ok l obtain err where
    err: "fs_Lstat fs (Filename l \<lparr>Type = ConfigFile, Name = []\<rparr>) = Inl err"
    by (cases "fs_Lstat fs (Filename l \<lparr>Type = ConfigFile, Name = []\<rparr>)")
      (auto simp: Create_def)
  from ok l err have be: "be = \<lparr>Config = cfg, Layout = l\<rparr>"
    and cp: "Create_paths md (Paths l) fs = (None, fs')"
    by (auto simp: Create_def split: option.splits prod.splits)
  from be err show "\<exists>err. fs_Lstat fs (Filename (Layout be) \<lparr>Type = ConfigFile, Name = []\<rparr>) = Inl err"
    by simp
  from cp show "extends fs fs'" by (rule Create_paths_extends)
  from Create_paths_dirs[OF cp] be
  show "\<forall>d \<in> set (Paths (Layout be)). \<exists>n. fs_Stat fs' d = Inr n \<and> fi_IsDir n"
    by (simp add: fs_Stat_Inr_iff fi_IsDir_iff)
qed

text \<open>The theorem at work: a repository with a config object, and an empty root.\<close>

theorem Create_config_exists_witness:
  "fs_Lstat fs_with_config (Filename (Layout backend0) \<lparr>Type = ConfigFile, Name = []\<rparr>)
     = Inr (Node Regular 256 [1, 2, 3]) \<and>
   Create parse0 modes0 cfg0 fs_with_config =
     (Inl (New ''config file already exists''), fs_with_config) \<and>
   Create parse0 modes0 cfg0 fs_bare = (Inr backend0, fs_repo) \<and>
   fs_Lstat fs_bare (Filename (Layout backend0) \<lparr>Type = ConfigFile, Name = []\<rparr>)
     = Inl (PathError ENOENT) \<and>
   extends fs_bare fs_repo \<and>
   list_all (\<lambda>d. \<exists>n. fs_Stat fs_repo d = Inr n \<and> fi_IsDir n) (Paths (Layout backend0))"
proof -
  have p: "parse0 fs_with_config (LayoutName cfg0) defaultLayout (Path cfg0) = Inr (Layout backend0)"
    by (simp add: example_defs layout_defs defaultLayout_def)
  have l: "fs_Lstat fs_with_config (Filename (Layout backend0) \<lparr>Type = ConfigFile, Name = []\<rparr>)
     = Inr (Node Regular 256 [1, 2, 3])"
    by (simp add: example_defs layout_defs fs_defs)
  have c: "Create parse0 modes0 cfg0 fs_bare = (Inr backend0, fs_repo)"
    by (simp add: example_defs layout_defs fs_defs backend_defs)
  have n: "fs_Lstat fs_bare (Filename (Layout backend0) \<lparr>Type = ConfigFile, Name = []\<rparr>)
     = Inl (PathError ENOENT)"
    by (simp add: example_defs layout_defs fs_defs)
  from Create_config_exists[of parse0 fs_with_config cfg0 "Layout backend0"
      "Node Regular 256 [1, 2, 3]" modes0] p l
  have "Create parse0 modes0 cfg0 fs_with_config =
     (Inl (New ''config file already exists''), fs_with_config)"
    by blast
  moreover from Create_config_exists[where parse = parse0 and fs = fs_bare and cfg = cfg0
      and md = modes0 and be = backend0 and fs' = fs_repo] c
  have "extends fs_bare fs_repo \<and>
   (\<forall>d \<in> set (Paths (Layout backend0)). \<exists>n. fs_Stat fs_repo d = Inr n \<and> fi_IsDir n)"
    by blast
  ultimately show ?thesis using l c n by (simp add: list_all_iff)
qed

subsection \<open>C10: Open makes directories only below an existing data directory\<close>

text \<open>
  Claim C10. \<open>Open\<close> never looks at the root directory. When \<open>dirExists\<close> does not
  find the data directory (the whole root may be missing), \<open>Open\<close> returns the backend
  and the file system as it was. Whatever \<open>Open\<close> returns, every entry of the file
  system is kept, and an entry that is new is a directory of mode \<open>Modes.Dir\<close> that
  lies strictly below the data directory, on the way to a path of \<open>Paths()\<close> below
  the data directory; there is a new entry only when the data directory existed.
\<close>

theorem Open_creates_only_below_datadir:
  assumes "parse fs (LayoutName cfg) defaultLayout (Path cfg) = Inr l"
    and "datadir = Dirname l \<lparr>Type = DataFile, Name = []\<rparr>"
  shows "(\<not> dirExists fs datadir \<longrightarrow>
            Open parse md cfg fs = (Inr \<lparr>Config = cfg, Layout = l\<rparr>, fs)) \<and>
         (Open parse md cfg fs = (r, fs') \<longrightarrow>
            extends fs fs' \<and>
            (\<forall>q n. map_of fs q = None \<longrightarrow> map_of fs' q = Some n \<longrightarrow>
               dirExists fs datadir \<and> n = Node Directory (Dir md AND ModePerm) [] \<and>
               strict_prefix datadir q \<and> (\<exists>d \<in> set (Paths l). prefix datadir d \<and> prefix q d)))"
proof (intro conjI impI allI)
  assume "\<not> dirExists fs datadir"
  with assms show "Open parse md cfg fs = (Inr \<lparr>Config = cfg, Layout = l\<rparr>, fs)"
    by (simp add: Open_def)
next
  assume op: "Open parse md cfg fs = (r, fs')"
  have key: "extends fs fs' \<and>
     (\<forall>q n. map_of fs q = None \<longrightarrow> map_of fs' q = Some n \<longrightarrow>
        dirExists fs datadir \<and> n = Node Directory (Dir md AND ModePerm) [] \<and>
        (\<exists>d \<in> set (Paths l). prefix datadir d \<and> prefix q d))"
  proof (cases "dirExists fs datadir")
    case False
    with op assms have "fs' = fs" by (simp add: Open_def)
    then show ?thesis by simp
  next
    case True
    obtain r1 where "Open_paths md datadir (Paths l) fs = (r1, fs')"
      using op assms True
      by (cases "Open_paths md datadir (Paths l) fs") (auto simp: Open_def split: option.splits)
    from Open_paths_grown[OF this] True show ?thesis by blast
  qed
  then show "extends fs fs'" by simp
  fix q n
  assume new: "map_of fs q = None" "map_of fs' q = Some n"
  with key obtain d where d: "dirExists fs datadir" "n = Node Directory (Dir md AND ModePerm) []"
    "d \<in> set (Paths l)" "prefix datadir d" "prefix q d"
    by blast
  then show "dirExists fs datadir" "n = Node Directory (Dir md AND ModePerm) []"
    "\<exists>d \<in> set (Paths l). prefix datadir d \<and> prefix q d"
    by auto
  from d(1) obtain m where m: "traverse fs (ancestors datadir) = None" "map_of fs datadir = Some m"
    by (auto simp: dirExists_iff resolve_Inr_iff)
  have "\<not> prefix q datadir"
  proof
    assume "prefix q datadir"
    then have "q = datadir \<or> q \<in> set (ancestors datadir)"
      by (auto simp: set_ancestors strict_prefix_def)
    with m new(1) show False by (auto simp: traverse_None_iff)
  qed
  moreover from d(4,5) have "prefix q datadir \<or> prefix datadir q"
    by (rule prefix_same_cases[rotated])
  ultimately show "strict_prefix datadir q" by (auto simp: strict_prefix_def)
qed

text \<open>The theorem at work: a root without a data directory, and a root whose data
  directory has lost its shard directories.\<close>

theorem Open_creates_only_below_datadir_witness:
  "parse0 fs_bare (LayoutName cfg0) defaultLayout (Path cfg0) = Inr (Layout backend0) \<and>
   \<not> dirExists fs_bare [''repo'', ''data''] \<and>
   Open parse0 modes0 cfg0 fs_bare = (Inr backend0, fs_bare) \<and>
   dirExists fs_datadir [''repo'', ''data''] \<and>
   Open parse0 modes0 cfg0 fs_datadir = (Inr backend0, fs_sharded) \<and>
   extends fs_datadir fs_sharded \<and>
   map_of fs_datadir [''repo'', ''data'', ''aa''] = None \<and>
   map_of fs_sharded [''repo'', ''data'', ''aa''] = Some (Node Directory 448 []) \<and>
   strict_prefix [''repo'', ''data''] [''repo'', ''data'', ''aa''] \<and>
   map_of fs_sharded [''repo'', ''snapshots''] = None"
proof -
  have p1: "parse0 fs_bare (LayoutName cfg0) defaultLayout (Path cfg0) = Inr (Layout backend0)"
    by (simp add: example_defs layout_defs defaultLayout_def)
  have p2: "parse0 fs_datadir (LayoutName cfg0) defaultLayout (Path cfg0) = Inr (Layout backend0)"
    by (simp add: example_defs layout_defs defaultLayout_def)
  have dd: "[''repo'', ''data''] = Dirname (Layout backend0) \<lparr>Type = DataFile, Name = []\<rparr>"
    by (simp add: example_defs layout_defs)
  have be: "\<lparr>Config = cfg0, Layout = Layout backend0\<rparr> = backend0"
    by (simp add: backend0_def)
  have n1: "\<not> dirExists fs_bare [''repo'', ''data'']"
    by (simp add: example_defs fs_defs dirExists_def)
  have e2: "dirExists fs_datadir [''repo'', ''data'']"
    by (simp add: example_defs fs_defs dirExists_def)
  have o2: "Open parse0 modes0 cfg0 fs_datadir = (Inr backend0, fs_sharded)"
    by (simp add: example_defs layout_defs fs_defs backend_defs)
  have m1: "map_of fs_datadir [''repo'', ''data'', ''aa''] = None"
    by (simp add: example_defs)
  have m2: "map_of fs_sharded [''repo'', ''snapshots''] = None"
    by (simp add: example_defs)
  have m3: "map_of fs_sharded [''repo'', ''data'', ''aa''] = Some (Node Directory 448 [])"
    by (simp add: example_defs)
  from Open_creates_only_below_datadir[where parse = parse0 and fs = fs_bare and cfg = cfg0
      and l = "Layout backend0" and datadir = "[''repo'', ''data'']" and md = modes0]
    p1 dd n1 be
  have o1: "Open parse0 modes0 cfg0 fs_bare = (Inr backend0, fs_bare)"
    by simp
  from Open_creates_only_below_datadir[where parse = parse0 and fs = fs_datadir and cfg = cfg0
      and l = "Layout backend0" and datadir = "[''repo'', ''data'']" and md = modes0
      and r = "Inr backend0" and fs' = fs_sharded]
    p2 dd o2 m1 m3
  have "extends fs_datadir fs_sharded \<and>
        strict_prefix [''repo'', ''data''] [''repo'', ''data'', ''aa'']"
    by blast
  with p1 n1 o1 e2 o2 m1 m2 m3 show ?thesis by blast
qed

end
